theory Spec2Isabelle
  imports Main "HOL-Library.Word" "HOL-Library.Sublist" "HOL-Library.Char_ord" "HOL-Library.List_Lexorder"
begin

section \<open>Status metrics (package statusHandler)\<close>

text \<open>
  The metrics live in a \<^verbatim>\<open>sync.Map\<close> from string keys to \<^verbatim>\<open>interface{}\<close> values.
  The setters of the file store three dynamic types: \<^verbatim>\<open>uint64\<close>, \<^verbatim>\<open>int64\<close> and
  \<^verbatim>\<open>string\<close>. The type assertion \<^verbatim>\<open>keyValueI.(uint64)\<close> succeeds on the first only.
\<close>

datatype metricValue = Uint64Value "64 word" | Int64Value "64 word" | StringValue string

type_synonym nodeMetrics = "string \<rightharpoonup> metricValue"

definition Increment :: "nodeMetrics \<Rightarrow> string \<Rightarrow> nodeMetrics" where
  "Increment sm key =
     (case sm key of
        None \<Rightarrow> sm
      | Some keyValueI \<Rightarrow>
          (case keyValueI of
             Uint64Value keyValue \<Rightarrow> sm(key \<mapsto> Uint64Value (keyValue + 1))
           | _ \<Rightarrow> sm))"

definition AddUint64 :: "nodeMetrics \<Rightarrow> string \<Rightarrow> 64 word \<Rightarrow> nodeMetrics" where
  "AddUint64 sm key val =
     (case sm key of
        None \<Rightarrow> sm
      | Some keyValueI \<Rightarrow>
          (case keyValueI of
             Uint64Value keyValue \<Rightarrow> sm(key \<mapsto> Uint64Value (keyValue + val))
           | _ \<Rightarrow> sm))"

definition Decrement :: "nodeMetrics \<Rightarrow> string \<Rightarrow> nodeMetrics" where
  "Decrement sm key =
     (case sm key of
        None \<Rightarrow> sm
      | Some keyValueI \<Rightarrow>
          (case keyValueI of
             Uint64Value keyValue \<Rightarrow>
               (if keyValue = 0 then sm else sm(key \<mapsto> Uint64Value (keyValue - 1)))
           | _ \<Rightarrow> sm))"

definition SetInt64Value :: "nodeMetrics \<Rightarrow> string \<Rightarrow> 64 word \<Rightarrow> nodeMetrics" where
  "SetInt64Value sm key v = sm(key \<mapsto> Int64Value v)"

definition SetUInt64Value :: "nodeMetrics \<Rightarrow> string \<Rightarrow> 64 word \<Rightarrow> nodeMetrics" where
  "SetUInt64Value sm key v = sm(key \<mapsto> Uint64Value v)"

definition SetStringValue :: "nodeMetrics \<Rightarrow> string \<Rightarrow> string \<Rightarrow> nodeMetrics" where
  "SetStringValue sm key v = sm(key \<mapsto> StringValue v)"

definition holdsUint64 :: "nodeMetrics \<Rightarrow> string \<Rightarrow> bool" where
  "holdsUint64 sm key = (case sm key of Some (Uint64Value _) \<Rightarrow> True | _ \<Rightarrow> False)"

section \<open>Genesis: the standard delegation processor (package intermediate)\<close>

text \<open>
  An interface-typed argument is \<open>None\<close> when \<^verbatim>\<open>check.IfNil\<close> holds for it (a nil
  interface, or one whose receiver is nil) and \<open>Some impl\<close> otherwise; \<^verbatim>\<open>NodePrice\<close>
  is a \<^verbatim>\<open>*big.Int\<close>, \<open>None\<close> when nil. The errors are the package variables of
  \<^verbatim>\<open>genesis\<close> whose names the constructors carry.
\<close>

datatype genesisError =
    ErrNilTxExecutionProcessor
  | ErrNilShardCoordinator
  | ErrNilAccountsParser
  | ErrNilSmartContractParser
  | ErrNilNodesListSplitter
  | ErrNilQueryService
  | ErrNilInitialNodePrice
  | ErrInvalidInitialNodePrice

record ('ex, 'sc, 'ap, 'sp, 'ns, 'qs) ArgStandardDelegationProcessor =
  Executor :: "'ex option"
  ShardCoordinator :: "'sc option"
  AccountsParser :: "'ap option"
  SmartContractParser :: "'sp option"
  NodesListSplitter :: "'ns option"
  QueryService :: "'qs option"
  NodePrice :: "int option"

record ('ex, 'sc, 'ap, 'sp, 'ns, 'qs) standardDelegationProcessor =
  TxExecutionProcessor :: "'ex option"
  shardCoordinator :: "'sc option"
  accuntsParser :: "'ap option"
  smartContractsParser :: "'sp option"
  nodesListSplitter :: "'ns option"
  queryService :: "'qs option"
  nodePrice :: "int option"

text \<open>The package variable \<^verbatim>\<open>zero = big.NewInt(0)\<close>; the file only reads it.\<close>

definition zero :: int where
  "zero = 0"

definition NewStandardDelegationProcessor ::
  "('ex, 'sc, 'ap, 'sp, 'ns, 'qs) ArgStandardDelegationProcessor
     \<Rightarrow> genesisError + ('ex, 'sc, 'ap, 'sp, 'ns, 'qs) standardDelegationProcessor" where
  "NewStandardDelegationProcessor arg =
     (if Executor arg = None then Inl ErrNilTxExecutionProcessor
      else if ShardCoordinator arg = None then Inl ErrNilShardCoordinator
      else if AccountsParser arg = None then Inl ErrNilAccountsParser
      else if SmartContractParser arg = None then Inl ErrNilSmartContractParser
      else if NodesListSplitter arg = None then Inl ErrNilNodesListSplitter
      else if QueryService arg = None then Inl ErrNilQueryService
      else (case NodePrice arg of
              None \<Rightarrow> Inl ErrNilInitialNodePrice
            | Some price \<Rightarrow>
                if price \<le> zero then Inl ErrInvalidInitialNodePrice
                else Inr \<lparr> TxExecutionProcessor = Executor arg,
                           shardCoordinator = ShardCoordinator arg,
                           accuntsParser = AccountsParser arg,
                           smartContractsParser = SmartContractParser arg,
                           nodesListSplitter = NodesListSplitter arg,
                           queryService = QueryService arg,
                           nodePrice = NodePrice arg \<rparr>))"

text \<open>The condition under which the constructor refuses its argument.\<close>

definition argRefused :: "('ex, 'sc, 'ap, 'sp, 'ns, 'qs) ArgStandardDelegationProcessor \<Rightarrow> bool" where
  "argRefused arg =
     (Executor arg = None \<or> ShardCoordinator arg = None \<or> AccountsParser arg = None
      \<or> SmartContractParser arg = None \<or> NodesListSplitter arg = None
      \<or> QueryService arg = None \<or> NodePrice arg = None
      \<or> (\<exists>price. NodePrice arg = Some price \<and> price \<le> 0))"

section \<open>Auction list displayer (package metachain)\<close>

subsection \<open>Memory, panics and logger calls\<close>

text \<open>
  The display functions receive pointers (\<^verbatim>\<open>*big.Int\<close>, \<^verbatim>\<open>*ownerData\<close>) and byte
  slices, and \<^verbatim>\<open>math/big\<close> writes its result into the receiver. The objects therefore
  live in an explicit store: an address is an index into the list of objects of its
  kind, an allocation appends a cell, and a pointer is \<open>None\<close> when nil. A pointer
  to a cell that does not exist cannot arise in Go; the model answers it with
  \<open>InvalidAddress\<close>. The package logger \<^verbatim>\<open>log\<close> is a global too; its level is part
  of the store.
\<close>

type_synonym addr = nat

datatype logLevel = LogTrace | LogDebug | LogInfo | LogWarning | LogError | LogNone

datatype runtimePanic =
    NilPointerDereference
  | InvalidAddress
  | DivisionByZero
  | SliceBoundsOutOfRange

text \<open>A call of \<^verbatim>\<open>log.Info\<close> or \<^verbatim>\<open>log.Error\<close>: the message and the rendered arguments.\<close>

datatype logCall = Info string "string list" | Error string "string list"

text \<open>
  \<^verbatim>\<open>state.ValidatorInfoHandler\<close>: the displayer only calls \<^verbatim>\<open>GetPublicKey()\<close>, which
  hands out the validator's byte slice (\<open>None\<close>: a nil slice).
\<close>

record validatorInfo =
  publicKey :: "addr option"

text \<open>
  \<^verbatim>\<open>ownerData\<close>. Its declaration is not among the sources; the fields are those the
  displayer reads. The four node counts are integers converted with \<^verbatim>\<open>int(...)\<close> at
  every use and are kept as natural numbers; the three top-ups are \<^verbatim>\<open>*big.Int\<close>.
\<close>

record ownerData =
  numStakedNodes :: nat
  numActiveNodes :: nat
  numAuctionNodes :: nat
  numQualifiedAuctionNodes :: nat
  totalTopUp :: "addr option"
  topUpPerNode :: "addr option"
  qualifiedTopUpPerNode :: "addr option"
  auctionList :: "validatorInfo list"

record store =
  bigInts :: "int list"
  byteArrays :: "string list"
  ownerStructs :: "ownerData list"
  logLevel :: logLevel

text \<open>\<^verbatim>\<open>display.LineData\<close>, as \<^verbatim>\<open>display.NewLineData\<close> fills it.\<close>

record lineData =
  HorizontalRuleAfter :: bool
  Values :: "string list"

definition NewLineData :: "bool \<Rightarrow> string list \<Rightarrow> lineData" where
  "NewLineData horizontalRuleAfter vals =
     \<lparr> HorizontalRuleAfter = horizontalRuleAfter, Values = vals \<rparr>"

text \<open>Sequencing of steps that may panic: the first panic ends the run.\<close>

definition andThen :: "runtimePanic + 'a \<Rightarrow> ('a \<Rightarrow> runtimePanic + 'b) \<Rightarrow> runtimePanic + 'b" where
  "andThen m f = (case m of Inl e \<Rightarrow> Inl e | Inr x \<Rightarrow> f x)"

subsection \<open>math/big and strconv, as far as the displayer uses them\<close>

definition loadBig :: "store \<Rightarrow> addr option \<Rightarrow> runtimePanic + int" where
  "loadBig s p =
     (case p of
        None \<Rightarrow> Inl NilPointerDereference
      | Some a \<Rightarrow> if a < length (bigInts s) then Inr (bigInts s ! a) else Inl InvalidAddress)"

definition storeBig :: "store \<Rightarrow> addr option \<Rightarrow> int \<Rightarrow> runtimePanic + (addr option \<times> store)" where
  "storeBig s p v =
     (case p of
        None \<Rightarrow> Inl NilPointerDereference
      | Some a \<Rightarrow>
          if a < length (bigInts s) then Inr (Some a, s\<lparr>bigInts := (bigInts s)[a := v]\<rparr>)
          else Inl InvalidAddress)"

text \<open>\<^verbatim>\<open>big.NewInt(x)\<close> allocates.\<close>

definition NewInt :: "store \<Rightarrow> int \<Rightarrow> addr option \<times> store" where
  "NewInt s x = (Some (length (bigInts s)), s\<lparr>bigInts := bigInts s @ [x]\<rparr>)"

text \<open>\<^verbatim>\<open>z.Sub(x, y)\<close> sets \<open>z\<close> to \<open>x - y\<close> and returns \<open>z\<close>.\<close>

definition Sub :: "store \<Rightarrow> addr option \<Rightarrow> addr option \<Rightarrow> addr option
    \<Rightarrow> runtimePanic + (addr option \<times> store)" where
  "Sub s z x y =
     andThen (loadBig s x) (\<lambda>xv.
     andThen (loadBig s y) (\<lambda>yv.
     storeBig s z (xv - yv)))"

text \<open>
  \<^verbatim>\<open>z.Div(x, y)\<close> sets \<open>z\<close> to the quotient of the Euclidean division (the remainder
  is never negative) and panics when \<open>y\<close> is zero.
\<close>

definition euclideanQuotient :: "int \<Rightarrow> int \<Rightarrow> int" where
  "euclideanQuotient x y = (if 0 < y then x div y else - (x div (- y)))"

definition Div :: "store \<Rightarrow> addr option \<Rightarrow> addr option \<Rightarrow> addr option
    \<Rightarrow> runtimePanic + (addr option \<times> store)" where
  "Div s z x y =
     andThen (loadBig s x) (\<lambda>xv.
     andThen (loadBig s y) (\<lambda>yv.
     if yv = 0 then Inl DivisionByZero else storeBig s z (euclideanQuotient xv yv)))"

text \<open>\<^verbatim>\<open>x.Cmp(y)\<close>: -1, 0 or +1.\<close>

definition Cmp :: "store \<Rightarrow> addr option \<Rightarrow> addr option \<Rightarrow> runtimePanic + int" where
  "Cmp s x y =
     andThen (loadBig s x) (\<lambda>xv.
     andThen (loadBig s y) (\<lambda>yv.
     Inr (if xv < yv then - 1 else if xv = yv then 0 else 1)))"

fun natDigits :: "nat \<Rightarrow> string" where
  "natDigits n =
     (if n < 10 then [''0123456789'' ! n]
      else natDigits (n div 10) @ [''0123456789'' ! (n mod 10)])"

declare natDigits.simps [simp del]

text \<open>\<^verbatim>\<open>strconv.Itoa\<close>: the decimal digits, with a minus sign below zero.\<close>

definition Itoa :: "int \<Rightarrow> string" where
  "Itoa i = (if i < 0 then CHR ''-'' # natDigits (nat (- i)) else natDigits (nat i))"

text \<open>\<^verbatim>\<open>x.String()\<close>: the decimal text, and \<^verbatim>\<open><nil>\<close> for a nil pointer.\<close>

definition String :: "store \<Rightarrow> addr option \<Rightarrow> runtimePanic + string" where
  "String s p =
     (case p of
        None \<Rightarrow> Inr ''<nil>''
      | Some a \<Rightarrow> if a < length (bigInts s) then Inr (Itoa (bigInts s ! a)) else Inl InvalidAddress)"

subsection \<open>Byte slices\<close>

text \<open>
  A byte slice points to its backing array; a nil slice has no bytes. \<^verbatim>\<open>make([]byte, 0)\<close>
  allocates an empty array, and \<^verbatim>\<open>append(dst, xs...)\<close> extends the array of \<open>dst\<close>
  (Go may move a grown array; either way only the destination's array is written).
\<close>

definition loadBytes :: "store \<Rightarrow> addr option \<Rightarrow> runtimePanic + string" where
  "loadBytes s p =
     (case p of
        None \<Rightarrow> Inr []
      | Some a \<Rightarrow> if a < length (byteArrays s) then Inr (byteArrays s ! a) else Inl InvalidAddress)"

definition makeBytes :: "store \<Rightarrow> addr option \<times> store" where
  "makeBytes s = (Some (length (byteArrays s)), s\<lparr>byteArrays := byteArrays s @ [[]]\<rparr>)"

definition appendBytes :: "store \<Rightarrow> addr option \<Rightarrow> string \<Rightarrow> runtimePanic + (addr option \<times> store)" where
  "appendBytes s dst xs =
     (case dst of
        None \<Rightarrow> Inr (Some (length (byteArrays s)), s\<lparr>byteArrays := byteArrays s @ [xs]\<rparr>)
      | Some a \<Rightarrow>
          if a < length (byteArrays s)
          then Inr (Some a, s\<lparr>byteArrays := (byteArrays s)[a := byteArrays s ! a @ xs]\<rparr>)
          else Inl InvalidAddress)"

text \<open>The slice expression \<^verbatim>\<open>xs[lo:hi]\<close> on a slice whose capacity is its length.\<close>

definition sliceOf :: "'a list \<Rightarrow> nat \<Rightarrow> nat \<Rightarrow> runtimePanic + 'a list" where
  "sliceOf xs lo hi =
     (if lo \<le> hi \<and> hi \<le> length xs then Inr (take (hi - lo) (drop lo xs))
      else Inl SliceBoundsOutOfRange)"

subsection \<open>The display functions\<close>

definition maxPubKeyDisplayableLen :: nat where
  "maxPubKeyDisplayableLen = 20"

text \<open>
  The guard \<^verbatim>\<open>if log.GetLevel() > logger.LogDebug { return }\<close> at the head of the four
  display functions is commented out in the source, so none of them reads the level.
  No statement of these functions assigns to the map, to an element of a slice or to a
  field of a struct they are given; what they write, they write through \<^verbatim>\<open>math/big\<close>
  and \<^verbatim>\<open>append\<close>, that is, through the store.
\<close>

definition displayMinRequiredTopUp :: "store \<Rightarrow> addr option \<Rightarrow> addr option \<Rightarrow> addr option
    \<Rightarrow> runtimePanic + (logCall list \<times> store)" where
  "displayMinRequiredTopUp s topUp min' step =
     andThen (Cmp s topUp min') (\<lambda>c.
     andThen (if \<not> (c = 0)
              then (case NewInt s 0 of (z, s1) \<Rightarrow> Sub s1 z topUp step)
              else Inr (topUp, s)) (\<lambda>(topUp1, s2).
     case NewInt s2 0 of (z2, s3) \<Rightarrow>
     andThen (Sub s3 z2 topUp1 min') (\<lambda>(iteratedValues, s4).
     case NewInt s4 0 of (z3, s5) \<Rightarrow>
     andThen (Div s5 z3 iteratedValues step) (\<lambda>(iterations, s6).
     andThen (String s6 topUp1) (\<lambda>topUpText.
     andThen (String s6 iterations) (\<lambda>iterationsText.
     Inr ([Info ''auctionListSelector: found min required''
             [''topUp'', topUpText, ''after num of iterations'', iterationsText]], s6)))))))"

definition getShortKey :: "store \<Rightarrow> addr option \<Rightarrow> runtimePanic + (string \<times> store)" where
  "getShortKey s pubKey =
     andThen (loadBytes s pubKey) (\<lambda>pubKeyBytes.
     let pubKeyLen = length pubKeyBytes in
     andThen
       (if pubKeyLen > maxPubKeyDisplayableLen
        then (case makeBytes s of (d0, s0) \<Rightarrow>
          andThen (sliceOf pubKeyBytes 0 (maxPubKeyDisplayableLen div 2)) (\<lambda>front.
          andThen (appendBytes s0 d0 front) (\<lambda>(d1, s1).
          andThen (appendBytes s1 d1 ''...'') (\<lambda>(d2, s2).
          andThen (sliceOf pubKeyBytes (pubKeyLen - maxPubKeyDisplayableLen div 2) pubKeyLen) (\<lambda>back.
          appendBytes s2 d2 back)))))
        else Inr (pubKey, s)) (\<lambda>(displayablePubKey, s3).
     andThen (loadBytes s3 displayablePubKey) (\<lambda>shown. Inr (shown, s3))))"

text \<open>The loop of \<^verbatim>\<open>getShortDisplayableBlsKeys\<close> from index \<open>idx\<close> on; \<open>n\<close> is \<^verbatim>\<open>len(list)\<close>.\<close>

fun shortKeysFrom :: "store \<Rightarrow> nat \<Rightarrow> nat \<Rightarrow> string \<Rightarrow> validatorInfo list
    \<Rightarrow> runtimePanic + (string \<times> store)" where
  "shortKeysFrom s n idx pubKeys [] = Inr (pubKeys, s)"
| "shortKeysFrom s n idx pubKeys (validator # rest) =
     andThen (getShortKey s (publicKey validator)) (\<lambda>(shortKey, s1).
     let pubKeys1 = pubKeys @ shortKey;
         addDelimiter = (int idx \<noteq> int n - 1)
     in shortKeysFrom s1 n (idx + 1) (if addDelimiter then pubKeys1 @ '', '' else pubKeys1) rest)"

definition getShortDisplayableBlsKeys :: "store \<Rightarrow> validatorInfo list
    \<Rightarrow> runtimePanic + (string \<times> store)" where
  "getShortDisplayableBlsKeys s list = shortKeysFrom s (length list) 0 [] list"

text \<open>
  \<^verbatim>\<open>display.CreateTableString\<close> belongs to another module and is a parameter \<open>cts\<close>:
  from the header and the lines it gives the table, or an error (its text).
\<close>

definition displayTable :: "(string list \<Rightarrow> lineData list \<Rightarrow> string + string)
    \<Rightarrow> string list \<Rightarrow> lineData list \<Rightarrow> string \<Rightarrow> logCall list" where
  "displayTable cts tableHeader lines message =
     (case cts tableHeader lines of
        Inl err \<Rightarrow> [Error ''could not create table'' [''error'', err]]
      | Inr table \<Rightarrow> [Info (message @ [CHR 0x0A] @ table) []])"

definition loadOwner :: "store \<Rightarrow> addr option \<Rightarrow> runtimePanic + ownerData" where
  "loadOwner s p =
     (case p of
        None \<Rightarrow> Inl NilPointerDereference
      | Some a \<Rightarrow> if a < length (ownerStructs s) then Inr (ownerStructs s ! a) else Inl InvalidAddress)"

text \<open>
  \<^verbatim>\<open>ownersData\<close> is a Go map; the \<^verbatim>\<open>range\<close> loop visits its entries in an order the
  language leaves open. The model takes the entries as a list, in the order visited.
\<close>

type_synonym ownersMap = "(string \<times> addr option) list"

fun ownersDataLines :: "store \<Rightarrow> ownersMap \<Rightarrow> lineData list
    \<Rightarrow> runtimePanic + (lineData list \<times> store)" where
  "ownersDataLines s [] lines = Inr (lines, s)"
| "ownersDataLines s ((ownerPubKey, ownerPtr) # rest) lines =
     andThen (loadOwner s ownerPtr) (\<lambda>owner.
     andThen (String s (totalTopUp owner)) (\<lambda>totalTopUpText.
     andThen (String s (topUpPerNode owner)) (\<lambda>topUpPerNodeText.
     andThen (getShortDisplayableBlsKeys s (auctionList owner)) (\<lambda>(keys, s1).
     let line = [ownerPubKey,
                 Itoa (int (numStakedNodes owner)),
                 Itoa (int (numActiveNodes owner)),
                 Itoa (int (numAuctionNodes owner)),
                 totalTopUpText,
                 topUpPerNodeText,
                 keys]
     in ownersDataLines s1 rest (lines @ [NewLineData False line])))))"

definition displayOwnersData :: "(string list \<Rightarrow> lineData list \<Rightarrow> string + string)
    \<Rightarrow> store \<Rightarrow> ownersMap \<Rightarrow> runtimePanic + (logCall list \<times> store)" where
  "displayOwnersData cts s ownersData =
     (let tableHeader = [''Owner'', ''Num staked nodes'', ''Num active nodes'',
                         ''Num auction nodes'', ''Total top up'', ''Top up per node'',
                         ''Auction list nodes'']
      in andThen (ownersDataLines s ownersData []) (\<lambda>(lines, s1).
         Inr (displayTable cts tableHeader lines ''Initial nodes config in auction list'', s1)))"

fun ownersSelectedLines :: "store \<Rightarrow> ownersMap \<Rightarrow> lineData list
    \<Rightarrow> runtimePanic + (lineData list \<times> store)" where
  "ownersSelectedLines s [] lines = Inr (lines, s)"
| "ownersSelectedLines s ((ownerPubKey, ownerPtr) # rest) lines =
     andThen (loadOwner s ownerPtr) (\<lambda>owner.
     andThen (String s (topUpPerNode owner)) (\<lambda>topUpPerNodeText.
     andThen (String s (totalTopUp owner)) (\<lambda>totalTopUpText.
     andThen (String s (qualifiedTopUpPerNode owner)) (\<lambda>qualifiedTopUpPerNodeText.
     andThen (sliceOf (auctionList owner) 0 (numQualifiedAuctionNodes owner)) (\<lambda>selected.
     andThen (getShortDisplayableBlsKeys s selected) (\<lambda>(keys, s1).
     let line = [ownerPubKey,
                 Itoa (int (numStakedNodes owner)),
                 topUpPerNodeText,
                 totalTopUpText,
                 Itoa (int (numAuctionNodes owner)),
                 Itoa (int (numQualifiedAuctionNodes owner)),
                 Itoa (int (numActiveNodes owner)),
                 qualifiedTopUpPerNodeText,
                 keys]
     in ownersSelectedLines s1 rest (lines @ [NewLineData False line])))))))"

definition displayOwnersSelectedNodes :: "(string list \<Rightarrow> lineData list \<Rightarrow> string + string)
    \<Rightarrow> store \<Rightarrow> ownersMap \<Rightarrow> runtimePanic + (logCall list \<times> store)" where
  "displayOwnersSelectedNodes cts s ownersData =
     (let tableHeader = [''Owner'', ''Num staked nodes'', ''TopUp per node'', ''Total top up'',
                         ''Num auction nodes'', ''Num qualified auction nodes'',
                         ''Num active nodes'', ''Qualified top up per node'',
                         ''Selected auction list nodes'']
      in andThen (ownersSelectedLines s ownersData []) (\<lambda>(lines, s1).
         Inr (displayTable cts tableHeader lines ''Selected nodes config from auction list'', s1)))"

text \<open>
  The loop of \<^verbatim>\<open>displayAuctionList\<close> from index \<open>idx\<close> on. \<open>getBlsKeyOwner\<close> stands for
  \<^verbatim>\<open>als.stakingDataProvider.GetBlsKeyOwner\<close> (an interface, taken as a function of the
  key's bytes): the owner of a key, or an error (its text). \<^verbatim>\<open>uint32(idx) == numOfSelectedNodes-1\<close> is a comparison of 32-bit
  words, and the subtraction wraps at zero.
\<close>

fun auctionListLines :: "(string \<Rightarrow> string + string) \<Rightarrow> store \<Rightarrow> ownersMap \<Rightarrow> 32 word
    \<Rightarrow> nat \<Rightarrow> validatorInfo list \<Rightarrow> lineData list \<Rightarrow> logCall list
    \<Rightarrow> runtimePanic + (lineData list \<times> logCall list)" where
  "auctionListLines getBlsKeyOwner s ownersData numOfSelectedNodes idx [] lines logged =
     Inr (lines, logged)"
| "auctionListLines getBlsKeyOwner s ownersData numOfSelectedNodes idx (validator # rest) lines logged =
     andThen (loadBytes s (publicKey validator)) (\<lambda>pubKey.
     case getBlsKeyOwner pubKey of
       Inl err \<Rightarrow>
         auctionListLines getBlsKeyOwner s ownersData numOfSelectedNodes (idx + 1) rest lines
           (logged @ [Error ''auctionListSelector.displayAuctionList'' [''error'', err]])
     | Inr owner \<Rightarrow>
         andThen (loadOwner s (case map_of ownersData owner of None \<Rightarrow> None | Some p \<Rightarrow> p)) (\<lambda>ownerStruct.
         let topUp = qualifiedTopUpPerNode ownerStruct;
             horizontalLine = ((word_of_nat idx :: 32 word) = numOfSelectedNodes - 1)
         in andThen (String s topUp) (\<lambda>topUpText.
            auctionListLines getBlsKeyOwner s ownersData numOfSelectedNodes (idx + 1) rest
              (lines @ [NewLineData horizontalLine [owner, pubKey, topUpText]]) logged)))"

definition displayAuctionList :: "(string list \<Rightarrow> lineData list \<Rightarrow> string + string)
    \<Rightarrow> (string \<Rightarrow> string + string) \<Rightarrow> store \<Rightarrow> validatorInfo list \<Rightarrow> ownersMap \<Rightarrow> 32 word
    \<Rightarrow> runtimePanic + (logCall list \<times> store)" where
  "displayAuctionList cts getBlsKeyOwner s auctionList' ownersData numOfSelectedNodes =
     (let tableHeader = [''Owner'', ''Registered key'', ''Qualified TopUp per node'']
      in andThen (auctionListLines getBlsKeyOwner s ownersData numOfSelectedNodes 0 auctionList' [] [])
           (\<lambda>(lines, logged).
              Inr (logged @ displayTable cts tableHeader lines ''Final selected nodes from auction list'', s)))"

text \<open>
  What a run may do to the store: cells are added behind the existing ones, no existing
  cell of a big integer or of a byte array changes, and the owner structs and the log
  level stay as they are.
\<close>

definition unchangedBy :: "store \<Rightarrow> store \<Rightarrow> bool" where
  "unchangedBy s s' =
     (prefix (bigInts s) (bigInts s') \<and> prefix (byteArrays s) (byteArrays s')
      \<and> ownerStructs s' = ownerStructs s \<and> logLevel s' = logLevel s)"

text \<open>
  The bound the displayer relies on when it slices \<^verbatim>\<open>owner.auctionList[:owner.numQualifiedAuctionNodes]\<close>.
\<close>

definition withinBounds :: "ownerData \<Rightarrow> bool" where
  "withinBounds owner =
     (numQualifiedAuctionNodes owner \<le> numAuctionNodes owner
      \<and> numAuctionNodes owner = length (auctionList owner))"

text \<open>The bytes of a validator's public key, read from the store.\<close>

definition keyOf :: "store \<Rightarrow> validatorInfo \<Rightarrow> string" where
  "keyOf s v = (case loadBytes s (publicKey v) of Inr bs \<Rightarrow> bs | Inl _ \<Rightarrow> [])"

definition keysOf :: "store \<Rightarrow> validatorInfo list \<Rightarrow> string list" where
  "keysOf s vs = map (keyOf s) vs"

text \<open>
  The text \<^verbatim>\<open>getShortKey\<close> returns for the bytes of a key, and the text
  \<^verbatim>\<open>getShortDisplayableBlsKeys\<close> builds from the texts of a list of keys: each but the
  last followed by a comma and a blank.
\<close>

definition shortForm :: "string \<Rightarrow> string" where
  "shortForm key =
     (if length key \<le> 20 then key else take 10 key @ ''...'' @ drop (length key - 10) key)"

fun joinKeys :: "string list \<Rightarrow> string" where
  "joinKeys [] = []"
| "joinKeys [k] = k"
| "joinKeys (k # k' # ks) = k @ '', '' @ joinKeys (k' # ks)"

text \<open>
  An owner struct whose pointers the displayer can follow: each top-up is nil or points
  to a big integer of the store, and each key slice is nil or points to a byte array.
\<close>

definition readable :: "store \<Rightarrow> ownerData \<Rightarrow> bool" where
  "readable s owner =
     ((\<exists>t. String s (topUpPerNode owner) = Inr t)
      \<and> (\<exists>t. String s (totalTopUp owner) = Inr t)
      \<and> (\<exists>t. String s (qualifiedTopUpPerNode owner) = Inr t)
      \<and> (\<forall>v \<in> set (auctionList owner). \<exists>bs. loadBytes s (publicKey v) = Inr bs))"

text \<open>
  The log levels at which the commented-out guard would have returned at once:
  \<^verbatim>\<open>log.GetLevel() > logger.LogDebug\<close>.
\<close>

fun levelRank :: "logLevel \<Rightarrow> nat" where
  "levelRank LogTrace = 0"
| "levelRank LogDebug = 1"
| "levelRank LogInfo = 2"
| "levelRank LogWarning = 3"
| "levelRank LogError = 4"
| "levelRank LogNone = 5"

definition aboveDebug :: "logLevel \<Rightarrow> bool" where
  "aboveDebug l = (levelRank l > levelRank LogDebug)"

text \<open>The outcome of a run, with the log level of the store it leaves set to \<open>l\<close>.\<close>

definition atLevel :: "logLevel \<Rightarrow> runtimePanic + ('a \<times> store) \<Rightarrow> runtimePanic + ('a \<times> store)" where
  "atLevel l r = (case r of Inl e \<Rightarrow> Inl e | Inr (x, s') \<Rightarrow> Inr (x, s'\<lparr>logLevel := l\<rparr>))"

section \<open>The selector, as far as the specification describes it\<close>

text \<open>
  Modelled from the spec: the per-owner figure \<^verbatim>\<open>topUpPerNode\<close>. The selector that
  computes it (package metachain, \<^verbatim>\<open>auctionListSelector\<close>) is missing from the sources,
  which only print the field. Section 3 of the specification:
  \<^verbatim>\<open>topUpPerNode = totalTopUp / numStakedNodes\<close>, integer division rounding down.
\<close>

definition topUpPerNodeOf :: "int \<Rightarrow> nat \<Rightarrow> int" where
  "topUpPerNodeOf totalStake numStaked = totalStake div int numStaked"

text \<open>
  Modelled from the spec: the per-owner figure \<^verbatim>\<open>qualifiedTopUpPerNode\<close>, computed by
  the same missing selector. Section 3 of the specification:
  \<^verbatim>\<open>qualifiedTopUpPerNode = totalTopUp / (numActiveNodes + numQualifiedAuctionNodes)\<close>,
  integer division rounding down.
\<close>

definition qualifiedTopUpPerNodeOf :: "int \<Rightarrow> nat \<Rightarrow> nat \<Rightarrow> int" where
  "qualifiedTopUpPerNodeOf totalStake numActive numQualified =
     totalStake div int (numActive + numQualified)"

text \<open>
  Modelled from the spec: the order of an owner's auction nodes. The selector that
  orders the list is missing from the sources. Section 4.3 of the specification: within
  an owner's auction nodes the selection order is ascending public key byte order. The
  keys are the byte strings of the store, compared byte by byte.
\<close>

definition ascendingByPublicKey :: "store \<Rightarrow> validatorInfo list \<Rightarrow> validatorInfo list" where
  "ascendingByPublicKey s vs = sort_key (keyOf s) vs"

text \<open>
  Modelled from the spec: the owner aggregates as the same missing selector leaves them
  for the displayer, the auction list of every owner in ascending public key order
  (Sections 4.3 and 8 of the specification: the nodes promoted are the first in that
  order). The counts and the top-ups stay as they are.
\<close>

definition ownersOrdered :: "store \<Rightarrow> store" where
  "ownersOrdered s =
     s\<lparr>ownerStructs :=
         map (\<lambda>owner. owner\<lparr>auctionList := ascendingByPublicKey s (auctionList owner)\<rparr>)
           (ownerStructs s)\<rparr>"

section \<open>Properties\<close>

subsection \<open>Status metrics\<close>

text \<open>
  Claim C9. \<^verbatim>\<open>Increment\<close>, \<^verbatim>\<open>AddUint64\<close> and \<^verbatim>\<open>Decrement\<close> change the metrics map only
  when the key already holds a \<^verbatim>\<open>uint64\<close>: on an absent key and on a value of another
  type they leave the map as it is, and they never add a key. On a \<^verbatim>\<open>uint64\<close> they
  store the new counter under the same key. \<^verbatim>\<open>Decrement\<close> of a stored zero leaves the
  map unchanged, and below a non-zero value it stores exactly one less, so the counter
  never wraps below zero.
\<close>

theorem counter_operations_guarded:
  "(\<not> holdsUint64 sm key \<longrightarrow>
      Increment sm key = sm \<and> AddUint64 sm key val = sm \<and> Decrement sm key = sm)
   \<and> dom (Increment sm key) = dom sm \<and> dom (AddUint64 sm key val) = dom sm
   \<and> dom (Decrement sm key) = dom sm
   \<and> (sm key = Some (Uint64Value 0) \<longrightarrow> Decrement sm key = sm)
   \<and> (\<forall>v. sm key = Some (Uint64Value v) \<longrightarrow>
         Increment sm key = sm(key \<mapsto> Uint64Value (v + 1))
         \<and> AddUint64 sm key val = sm(key \<mapsto> Uint64Value (v + val))
         \<and> Decrement sm key = (if v = 0 then sm else sm(key \<mapsto> Uint64Value (v - 1)))
         \<and> (v \<noteq> 0 \<longrightarrow> unat (v - 1) = unat v - 1))"
  by (auto simp: holdsUint64_def Increment_def AddUint64_def Decrement_def unat_minus_one
      split: option.splits metricValue.splits)

theorem counter_operations_guarded_witness:
  "Increment (Map.empty(''a'' \<mapsto> Int64Value 5)) ''a'' = Map.empty(''a'' \<mapsto> Int64Value 5)
   \<and> Decrement Map.empty ''a'' = Map.empty
   \<and> Decrement (Map.empty(''a'' \<mapsto> Uint64Value 0)) ''a'' = Map.empty(''a'' \<mapsto> Uint64Value 0)
   \<and> Decrement (Map.empty(''a'' \<mapsto> Uint64Value 3)) ''a'' = Map.empty(''a'' \<mapsto> Uint64Value 2)
   \<and> unat (3 - 1 :: 64 word) = unat (3 :: 64 word) - 1"
  using counter_operations_guarded [of "Map.empty(''a'' \<mapsto> Int64Value 5)" "''a''" 0]
    counter_operations_guarded [of "Map.empty" "''a''" 0]
    counter_operations_guarded [of "Map.empty(''a'' \<mapsto> Uint64Value 0)" "''a''" 0]
    counter_operations_guarded [of "Map.empty(''a'' \<mapsto> Uint64Value 3)" "''a''" 0]
  by (simp add: holdsUint64_def)

subsection \<open>The standard delegation processor\<close>

text \<open>
  Claim C10. \<^verbatim>\<open>NewStandardDelegationProcessor\<close> returns no processor and an error
  exactly when one of Executor, ShardCoordinator, AccountsParser, SmartContractParser,
  NodesListSplitter, QueryService is nil, or NodePrice is nil or not positive; the error
  is the one of the first check that fails, a different one for each check. Otherwise
  it returns, with no error, a processor that holds exactly the supplied arguments.
\<close>

theorem new_processor_refuses_iff:
  "((\<exists>e. NewStandardDelegationProcessor arg = Inl e) \<longleftrightarrow> argRefused arg)
   \<and> (\<not> argRefused arg \<longrightarrow>
        NewStandardDelegationProcessor arg =
          Inr \<lparr> TxExecutionProcessor = Executor arg,
                shardCoordinator = ShardCoordinator arg,
                accuntsParser = AccountsParser arg,
                smartContractsParser = SmartContractParser arg,
                nodesListSplitter = NodesListSplitter arg,
                queryService = QueryService arg,
                nodePrice = NodePrice arg \<rparr>)
   \<and> (argRefused arg \<longrightarrow>
        NewStandardDelegationProcessor arg =
          Inl (if Executor arg = None then ErrNilTxExecutionProcessor
               else if ShardCoordinator arg = None then ErrNilShardCoordinator
               else if AccountsParser arg = None then ErrNilAccountsParser
               else if SmartContractParser arg = None then ErrNilSmartContractParser
               else if NodesListSplitter arg = None then ErrNilNodesListSplitter
               else if QueryService arg = None then ErrNilQueryService
               else if NodePrice arg = None then ErrNilInitialNodePrice
               else ErrInvalidInitialNodePrice))"
  by (auto simp: NewStandardDelegationProcessor_def argRefused_def zero_def split: option.splits)

theorem new_processor_refuses_iff_witness:
  "NewStandardDelegationProcessor
     \<lparr> Executor = Some (), ShardCoordinator = Some (), AccountsParser = Some (),
       SmartContractParser = Some (), NodesListSplitter = Some (), QueryService = Some (),
       NodePrice = Some 2500 \<rparr>
   = Inr \<lparr> TxExecutionProcessor = Some (), shardCoordinator = Some (), accuntsParser = Some (),
           smartContractsParser = Some (), nodesListSplitter = Some (), queryService = Some (),
           nodePrice = Some 2500 \<rparr>
   \<and> NewStandardDelegationProcessor
     \<lparr> Executor = Some (), ShardCoordinator = Some (), AccountsParser = Some (),
       SmartContractParser = Some (), NodesListSplitter = (None :: unit option), QueryService = Some (),
       NodePrice = Some 0 \<rparr>
   = Inl ErrNilNodesListSplitter
   \<and> NewStandardDelegationProcessor
     \<lparr> Executor = Some (), ShardCoordinator = Some (), AccountsParser = Some (),
       SmartContractParser = Some (), NodesListSplitter = Some (), QueryService = Some (),
       NodePrice = Some 0 \<rparr>
   = Inl ErrInvalidInitialNodePrice"
  using new_processor_refuses_iff [of "\<lparr> Executor = Some (), ShardCoordinator = Some (),
        AccountsParser = Some (), SmartContractParser = Some (), NodesListSplitter = Some (),
        QueryService = Some (), NodePrice = Some 2500 \<rparr>"]
    new_processor_refuses_iff [of "\<lparr> Executor = Some (), ShardCoordinator = Some (),
        AccountsParser = Some (), SmartContractParser = Some (), NodesListSplitter = (None :: unit option),
        QueryService = Some (), NodePrice = Some 0 \<rparr>"]
    new_processor_refuses_iff [of "\<lparr> Executor = Some (), ShardCoordinator = Some (),
        AccountsParser = Some (), SmartContractParser = Some (), NodesListSplitter = Some (),
        QueryService = Some (), NodePrice = Some 0 \<rparr>"]
  by (simp add: argRefused_def)

subsection \<open>The displayer: sequencing, the store, the loops\<close>

lemma andThen_Inr [simp]: "andThen (Inr x) f = f x"
  by (simp add: andThen_def)

lemma andThen_Inl [simp]: "andThen (Inl e) f = Inl e"
  by (simp add: andThen_def)

lemma andThen_Inr_iff:
  "andThen m f = Inr r \<longleftrightarrow> (\<exists>x. m = Inr x \<and> f x = Inr r)"
  by (cases m) simp_all

lemma unchangedBy_refl: "unchangedBy s s"
  by (simp add: unchangedBy_def)

lemma unchangedBy_trans: "unchangedBy s s1 \<Longrightarrow> unchangedBy s1 s2 \<Longrightarrow> unchangedBy s s2"
  by (auto simp: unchangedBy_def)

lemma loadBytes_cases:
  "loadBytes s p = Inl InvalidAddress \<or> (\<exists>key. loadBytes s p = Inr key)"
  by (simp add: loadBytes_def split: option.splits)

lemma getShortKey_value:
  assumes "loadBytes s pubKey = Inr key"
  shows "\<exists>s'. getShortKey s pubKey =
           Inr (if length key \<le> 20 then key
                else take 10 key @ ''...'' @ drop (length key - 10) key, s')
         \<and> unchangedBy s s' \<and> loadBytes s' pubKey = Inr key"
  using assms
  by (auto simp: getShortKey_def loadBytes_def makeBytes_def appendBytes_def sliceOf_def
      maxPubKeyDisplayableLen_def unchangedBy_def Let_def nth_append
      split: option.splits if_splits)

lemma getShortKey_panic:
  assumes "loadBytes s pubKey = Inl e"
  shows "getShortKey s pubKey = Inl e"
  using assms by (simp add: getShortKey_def)

lemma getShortKey_keeps:
  assumes "getShortKey s pubKey = Inr (shown, s')"
  shows "unchangedBy s s'"
proof -
  from loadBytes_cases [of s pubKey] assms obtain key where "loadBytes s pubKey = Inr key"
    by (auto simp: getShortKey_panic)
  from getShortKey_value [OF this] assms show ?thesis by auto
qed

lemma getShortKey_in_bounds: "getShortKey s pubKey \<noteq> Inl SliceBoundsOutOfRange"
  using loadBytes_cases [of s pubKey]
proof
  assume "loadBytes s pubKey = Inl InvalidAddress"
  then show ?thesis by (simp add: getShortKey_panic)
next
  assume "\<exists>key. loadBytes s pubKey = Inr key"
  then obtain key where "loadBytes s pubKey = Inr key" ..
  from getShortKey_value [OF this] show ?thesis by auto
qed

lemma shortKeysFrom_keeps:
  "shortKeysFrom s n idx pubKeys vs = Inr (shown, s') \<Longrightarrow> unchangedBy s s'"
proof (induction vs arbitrary: s idx pubKeys)
  case Nil
  then show ?case by (simp add: unchangedBy_refl)
next
  case (Cons validator rest)
  show ?case
  proof (cases "getShortKey s (publicKey validator)")
    case (Inl e)
    with Cons.prems show ?thesis by simp
  next
    case (Inr r)
    obtain shortKey s1 where r: "r = (shortKey, s1)" by (cases r)
    from Cons.prems Inr r have
      "shortKeysFrom s1 n (idx + 1)
         (if int idx \<noteq> int n - 1 then (pubKeys @ shortKey) @ '', '' else pubKeys @ shortKey) rest
       = Inr (shown, s')"
      by (simp add: Let_def)
    from Cons.IH [OF this] getShortKey_keeps [of s "publicKey validator" shortKey s1] Inr r
    show ?thesis by (auto intro: unchangedBy_trans)
  qed
qed

lemma shortKeysFrom_in_bounds:
  "shortKeysFrom s n idx pubKeys vs \<noteq> Inl SliceBoundsOutOfRange"
proof (induction vs arbitrary: s idx pubKeys)
  case Nil
  show ?case by simp
next
  case (Cons validator rest)
  show ?case
  proof (cases "getShortKey s (publicKey validator)")
    case (Inl e)
    with getShortKey_in_bounds [of s "publicKey validator"] show ?thesis by simp
  next
    case (Inr r)
    obtain shortKey s1 where r: "r = (shortKey, s1)" by (cases r)
    from Inr r Cons.IH show ?thesis by (simp add: Let_def)
  qed
qed

lemma displayMinRequiredTopUp_keeps:
  assumes "displayMinRequiredTopUp s topUp min' step = Inr (out, s')"
  shows "unchangedBy s s'"
  using assms
  by (auto simp: displayMinRequiredTopUp_def andThen_Inr_iff loadBig_def storeBig_def NewInt_def
      Sub_def Div_def unchangedBy_def list_update_append
      split: option.splits if_splits)

lemma getShortDisplayableBlsKeys_keeps:
  "getShortDisplayableBlsKeys s vs = Inr (shown, s') \<Longrightarrow> unchangedBy s s'"
  by (simp add: getShortDisplayableBlsKeys_def shortKeysFrom_keeps)

lemma getShortDisplayableBlsKeys_in_bounds:
  "getShortDisplayableBlsKeys s vs \<noteq> Inl SliceBoundsOutOfRange"
  by (simp add: getShortDisplayableBlsKeys_def shortKeysFrom_in_bounds)

lemma ownersDataLines_keeps:
  "ownersDataLines s ownersData lines = Inr (lines', s') \<Longrightarrow> unchangedBy s s'"
proof (induction ownersData arbitrary: s lines)
  case Nil
  then show ?case by (simp add: unchangedBy_refl)
next
  case (Cons entry rest)
  obtain ownerPubKey ownerPtr where entry: "entry = (ownerPubKey, ownerPtr)" by (cases entry)
  from Cons.prems entry obtain vs keys s1 lines1 where
    first: "getShortDisplayableBlsKeys s vs = Inr (keys, s1)"
    and rest: "ownersDataLines s1 rest lines1 = Inr (lines', s')"
    by (clarsimp simp: andThen_Inr_iff Let_def)
  from getShortDisplayableBlsKeys_keeps [OF first] Cons.IH [OF rest] show ?case
    by (rule unchangedBy_trans)
qed

lemma ownersSelectedLines_keeps:
  "ownersSelectedLines s ownersData lines = Inr (lines', s') \<Longrightarrow> unchangedBy s s'"
proof (induction ownersData arbitrary: s lines)
  case Nil
  then show ?case by (simp add: unchangedBy_refl)
next
  case (Cons entry rest)
  obtain ownerPubKey ownerPtr where entry: "entry = (ownerPubKey, ownerPtr)" by (cases entry)
  from Cons.prems entry obtain vs keys s1 lines1 where
    first: "getShortDisplayableBlsKeys s vs = Inr (keys, s1)"
    and rest: "ownersSelectedLines s1 rest lines1 = Inr (lines', s')"
    by (clarsimp simp: andThen_Inr_iff Let_def)
  from getShortDisplayableBlsKeys_keeps [OF first] Cons.IH [OF rest] show ?case
    by (rule unchangedBy_trans)
qed

lemma andThen_Inl_iff:
  "andThen m f = Inl e \<longleftrightarrow> (m = Inl e \<or> (\<exists>x. m = Inr x \<and> f x = Inl e))"
  by (cases m) simp_all

lemma unchangedBy_reads:
  assumes "unchangedBy s s'"
  shows "(\<forall>p v. loadBig s p = Inr v \<longrightarrow> loadBig s' p = Inr v)
         \<and> (\<forall>p bs. loadBytes s p = Inr bs \<longrightarrow> loadBytes s' p = Inr bs)
         \<and> (\<forall>p. loadOwner s' p = loadOwner s p)"
  using assms
  by (auto simp: unchangedBy_def prefix_def loadBig_def loadBytes_def loadOwner_def nth_append
      split: option.splits if_splits)

lemma loadOwner_in_bounds: "loadOwner s p \<noteq> Inl SliceBoundsOutOfRange"
  by (simp add: loadOwner_def split: option.splits)

lemma String_in_bounds: "String s p \<noteq> Inl SliceBoundsOutOfRange"
  by (simp add: String_def split: option.splits)

lemma sliceOf_prefix:
  "k \<le> length xs \<Longrightarrow> sliceOf xs 0 k = Inr (take k xs)"
  by (simp add: sliceOf_def)

lemma sliceOf_beyond:
  "length xs < k \<Longrightarrow> sliceOf xs 0 k = Inl SliceBoundsOutOfRange"
  by (simp add: sliceOf_def)

lemma ownersSelectedLines_in_bounds:
  assumes "\<forall>entry \<in> set ownersData. \<forall>owner. loadOwner s (snd entry) = Inr owner \<longrightarrow> withinBounds owner"
  shows "ownersSelectedLines s ownersData lines \<noteq> Inl SliceBoundsOutOfRange"
  using assms
proof (induction ownersData arbitrary: s lines)
  case Nil
  show ?case by simp
next
  case (Cons entry rest)
  obtain ownerPubKey ownerPtr where entry: "entry = (ownerPubKey, ownerPtr)" by (cases entry)
  show ?case
  proof
    assume bad: "ownersSelectedLines s (entry # rest) lines = Inl SliceBoundsOutOfRange"
    from bad entry loadOwner_in_bounds [of s ownerPtr] obtain owner where
      owner: "loadOwner s ownerPtr = Inr owner"
      by (auto simp: andThen_Inl_iff)
    from Cons.prems entry owner have wb: "withinBounds owner" by auto
    then have slice: "sliceOf (auctionList owner) 0 (numQualifiedAuctionNodes owner)
        = Inr (take (numQualifiedAuctionNodes owner) (auctionList owner))"
      by (simp add: withinBounds_def sliceOf_prefix)
    from bad entry owner slice
      String_in_bounds [of s "topUpPerNode owner"]
      String_in_bounds [of s "totalTopUp owner"]
      String_in_bounds [of s "qualifiedTopUpPerNode owner"]
      getShortDisplayableBlsKeys_in_bounds
        [of s "take (numQualifiedAuctionNodes owner) (auctionList owner)"]
    obtain keys s1 lines1 where
      first: "getShortDisplayableBlsKeys s (take (numQualifiedAuctionNodes owner) (auctionList owner))
              = Inr (keys, s1)"
      and rest: "ownersSelectedLines s1 rest lines1 = Inl SliceBoundsOutOfRange"
      by (auto simp: andThen_Inl_iff Let_def)
    from getShortDisplayableBlsKeys_keeps [OF first] have "\<forall>p. loadOwner s1 p = loadOwner s p"
      using unchangedBy_reads by blast
    with Cons.prems have
      "\<forall>entry \<in> set rest. \<forall>owner. loadOwner s1 (snd entry) = Inr owner \<longrightarrow> withinBounds owner"
      by simp
    from Cons.IH [OF this] rest show False by blast
  qed
qed

lemma atLevel_simps [simp]:
  "atLevel l (Inl e) = Inl e"
  "atLevel l (Inr (x, s')) = Inr (x, s'\<lparr>logLevel := l\<rparr>)"
  by (simp_all add: atLevel_def)

lemma atLevel_andThen: "atLevel l (andThen m f) = andThen m (\<lambda>x. atLevel l (f x))"
  by (cases m) simp_all

lemma reads_ignore_level [simp]:
  "loadBig (s\<lparr>logLevel := l\<rparr>) p = loadBig s p"
  "loadBytes (s\<lparr>logLevel := l\<rparr>) p = loadBytes s p"
  "loadOwner (s\<lparr>logLevel := l\<rparr>) p = loadOwner s p"
  "String (s\<lparr>logLevel := l\<rparr>) p = String s p"
  "Cmp (s\<lparr>logLevel := l\<rparr>) x y = Cmp s x y"
  by (simp_all add: loadBig_def loadBytes_def loadOwner_def String_def Cmp_def split: option.splits)

lemma displayMinRequiredTopUp_ignores_level:
  "displayMinRequiredTopUp (s\<lparr>logLevel := l\<rparr>) topUp min' step
     = atLevel l (displayMinRequiredTopUp s topUp min' step)"
  by (auto simp: displayMinRequiredTopUp_def andThen_def loadBig_def storeBig_def NewInt_def
      Sub_def Div_def Cmp_def String_def
      split: option.splits if_splits sum.splits)

lemma getShortKey_ignores_level:
  "getShortKey (s\<lparr>logLevel := l\<rparr>) pubKey = atLevel l (getShortKey s pubKey)"
  by (auto simp: getShortKey_def andThen_def loadBytes_def makeBytes_def appendBytes_def
      sliceOf_def Let_def maxPubKeyDisplayableLen_def
      split: option.splits if_splits sum.splits)

lemma shortKeysFrom_ignores_level:
  "shortKeysFrom (s\<lparr>logLevel := l\<rparr>) n idx pubKeys vs = atLevel l (shortKeysFrom s n idx pubKeys vs)"
proof (induction vs arbitrary: s idx pubKeys)
  case Nil
  show ?case by simp
next
  case (Cons validator rest)
  show ?case
  proof (cases "getShortKey s (publicKey validator)")
    case (Inl e)
    then show ?thesis by (simp add: getShortKey_ignores_level)
  next
    case (Inr r)
    obtain shortKey s1 where r: "r = (shortKey, s1)" by (cases r)
    with Inr Cons.IH show ?thesis by (simp add: getShortKey_ignores_level Let_def)
  qed
qed

lemma getShortDisplayableBlsKeys_ignores_level:
  "getShortDisplayableBlsKeys (s\<lparr>logLevel := l\<rparr>) vs = atLevel l (getShortDisplayableBlsKeys s vs)"
  by (simp add: getShortDisplayableBlsKeys_def shortKeysFrom_ignores_level)

lemma ownersDataLines_ignores_level:
  "ownersDataLines (s\<lparr>logLevel := l\<rparr>) ownersData lines = atLevel l (ownersDataLines s ownersData lines)"
proof (induction ownersData arbitrary: s lines)
  case Nil
  show ?case by simp
next
  case (Cons entry rest)
  obtain ownerPubKey ownerPtr where entry: "entry = (ownerPubKey, ownerPtr)" by (cases entry)
  show ?case
    unfolding entry ownersDataLines.simps reads_ignore_level atLevel_andThen
      getShortDisplayableBlsKeys_ignores_level
    by (auto simp: andThen_def Let_def Cons.IH split: sum.splits)
qed

lemma ownersSelectedLines_ignores_level:
  "ownersSelectedLines (s\<lparr>logLevel := l\<rparr>) ownersData lines
     = atLevel l (ownersSelectedLines s ownersData lines)"
proof (induction ownersData arbitrary: s lines)
  case Nil
  show ?case by simp
next
  case (Cons entry rest)
  obtain ownerPubKey ownerPtr where entry: "entry = (ownerPubKey, ownerPtr)" by (cases entry)
  show ?case
    unfolding entry ownersSelectedLines.simps reads_ignore_level atLevel_andThen
      getShortDisplayableBlsKeys_ignores_level
    by (auto simp: andThen_def Let_def Cons.IH split: sum.splits)
qed

lemma auctionListLines_ignores_level:
  "auctionListLines gbo (s\<lparr>logLevel := l\<rparr>) ownersData k idx vs lines logged
     = auctionListLines gbo s ownersData k idx vs lines logged"
  by (induction vs arbitrary: idx lines logged)
     (auto simp: andThen_def Let_def split: sum.splits)

lemma displayTable_calls_logger: "displayTable cts header lines message \<noteq> []"
  by (simp add: displayTable_def split: sum.splits)

subsection \<open>The displayer: shortened keys\<close>

text \<open>
  Claim C8. For a public key of at most 20 bytes \<^verbatim>\<open>getShortKey\<close> returns the key in
  full; for a longer key it returns the first 10 bytes, the three characters
  \<^verbatim>\<open>...\<close> and the last 10 bytes. Only the returned string is shortened: the bytes
  stored under the key's slice are the same after the call, and so is every other cell
  of the store.
\<close>

theorem getShortKey_shortens_only_what_is_shown:
  assumes "loadBytes s pubKey = Inr key"
  shows "\<exists>shown s'. getShortKey s pubKey = Inr (shown, s')
         \<and> (length key \<le> 20 \<longrightarrow> shown = key)
         \<and> (20 < length key \<longrightarrow>
               shown = take 10 key @ ''...'' @ drop (length key - 10) key
               \<and> length (take 10 key) = 10 \<and> length (drop (length key - 10) key) = 10)
         \<and> loadBytes s' pubKey = Inr key \<and> unchangedBy s s'"
  using getShortKey_value [OF assms] by auto

theorem getShortKey_shortens_only_what_is_shown_witness:
  "loadBytes \<lparr> bigInts = [], byteArrays = [''0123456789abcdefghijklmnopqrstuv'', ''key2''],
               ownerStructs = [], logLevel = LogDebug \<rparr> (Some 0)
     = Inr ''0123456789abcdefghijklmnopqrstuv''
   \<and> (\<exists>s'. getShortKey \<lparr> bigInts = [], byteArrays = [''0123456789abcdefghijklmnopqrstuv'', ''key2''],
               ownerStructs = [], logLevel = LogDebug \<rparr> (Some 0)
            = Inr (''0123456789...mnopqrstuv'', s')
          \<and> loadBytes s' (Some 0) = Inr ''0123456789abcdefghijklmnopqrstuv'')
   \<and> (\<exists>s'. getShortKey \<lparr> bigInts = [], byteArrays = [''0123456789abcdefghijklmnopqrstuv'', ''key2''],
               ownerStructs = [], logLevel = LogDebug \<rparr> (Some 1)
            = Inr (''key2'', s')
          \<and> loadBytes s' (Some 1) = Inr ''key2'')"
proof -
  let ?s = "\<lparr> bigInts = [], byteArrays = [''0123456789abcdefghijklmnopqrstuv'', ''key2''],
               ownerStructs = [], logLevel = LogDebug \<rparr>"
  have long: "loadBytes ?s (Some 0) = Inr ''0123456789abcdefghijklmnopqrstuv''"
    by (simp add: loadBytes_def)
  have short: "loadBytes ?s (Some 1) = Inr ''key2''"
    by (simp add: loadBytes_def)
  from getShortKey_shortens_only_what_is_shown [OF long]
    getShortKey_shortens_only_what_is_shown [OF short] long
  show ?thesis by auto
qed

subsection \<open>The displayer: the reported number of iterations\<close>

text \<open>
  Claim C4, as amended. For top-up \<open>t\<close>, minimum \<open>m\<close> and a step \<open>d\<close> other than
  zero, \<^verbatim>\<open>displayMinRequiredTopUp\<close> reports the top-up \<open>t\<close> itself when \<open>t = m\<close> and
  \<open>t - d\<close> otherwise, and as the number of iterations the quotient of the distance from
  \<open>m\<close> to the reported top-up by \<open>d\<close>. The count is measured upwards from the minimum:
  for a positive step and \<open>t = m + k * d\<close> it is \<open>k - 1\<close> (and 0 for \<open>k = 0\<close>). The
  maximum observed top-up per node is no argument of the function and does not enter.
\<close>

theorem displayMinRequiredTopUp_counts_from_min:
  assumes "loadBig s topUp = Inr t" and "loadBig s min' = Inr m" and "loadBig s step = Inr d"
    and "d \<noteq> 0"
  shows "\<exists>s'. displayMinRequiredTopUp s topUp min' step =
           Inr ([Info ''auctionListSelector: found min required''
                  [''topUp'', Itoa (if t = m then t else t - d),
                   ''after num of iterations'',
                   Itoa (euclideanQuotient ((if t = m then t else t - d) - m) d)]], s')
         \<and> (0 < d \<longrightarrow> euclideanQuotient ((if t = m then t else t - d) - m) d
                        = ((if t = m then t else t - d) - m) div d)
         \<and> (\<forall>k. 0 < d \<and> t = m + int k * d \<longrightarrow>
                euclideanQuotient ((if t = m then t else t - d) - m) d = int (k - 1))"
proof -
  have run: "\<exists>s'. displayMinRequiredTopUp s topUp min' step =
           Inr ([Info ''auctionListSelector: found min required''
                  [''topUp'', Itoa (if t = m then t else t - d),
                   ''after num of iterations'',
                   Itoa (euclideanQuotient ((if t = m then t else t - d) - m) d)]], s')"
    using assms
    by (auto simp: displayMinRequiredTopUp_def loadBig_def storeBig_def NewInt_def Sub_def Div_def
        Cmp_def String_def Let_def nth_append list_update_append
        split: option.splits if_splits)
  have steps: "euclideanQuotient ((if t = m then t else t - d) - m) d = int (k - 1)"
    if "0 < d" and "t = m + int k * d" for k
  proof (cases k)
    case 0
    with that show ?thesis by (simp add: euclideanQuotient_def)
  next
    case (Suc j)
    with that have "t \<noteq> m" by simp
    moreover from that Suc have "t - d - m = int j * d" by (simp add: algebra_simps)
    ultimately show ?thesis using that Suc by (simp add: euclideanQuotient_def)
  qed
  from run steps show ?thesis by (auto simp: euclideanQuotient_def)
qed

theorem displayMinRequiredTopUp_counts_from_min_witness:
  "loadBig \<lparr> bigInts = [1300, 100, 200], byteArrays = [], ownerStructs = [], logLevel = LogDebug \<rparr>
       (Some 0) = Inr 1300
   \<and> (1300 :: int) = 100 + int 6 * 200
   \<and> (\<exists>s'. displayMinRequiredTopUp
       \<lparr> bigInts = [1300, 100, 200], byteArrays = [], ownerStructs = [], logLevel = LogDebug \<rparr>
       (Some 0) (Some 1) (Some 2)
     = Inr ([Info ''auctionListSelector: found min required''
              [''topUp'', ''1100'', ''after num of iterations'', ''5'']], s'))
   \<and> euclideanQuotient (1300 - 200 - 100) 200 = int (6 - 1)"
proof -
  let ?s = "\<lparr> bigInts = [1300, 100, 200], byteArrays = [], ownerStructs = [], logLevel = LogDebug \<rparr>"
  have a: "loadBig ?s (Some 0) = Inr 1300" and b: "loadBig ?s (Some 1) = Inr 100"
    and c: "loadBig ?s (Some 2) = Inr 200"
    by (simp_all add: loadBig_def)
  have texts: "Itoa 1100 = ''1100''" "Itoa 5 = ''5''"
    by code_simp+
  have d: "(200 :: int) \<noteq> 0" by simp
  from displayMinRequiredTopUp_counts_from_min [OF a b c d] a texts
  show ?thesis by (simp add: euclideanQuotient_def)
qed

text \<open>
  Claim C4 as stated fails: a search that starts at the maximum 1000 and stops there
  at once (threshold 1000, minimum 100, step 100) has made (1000 - 1000) / 100 = 0
  iterations, and the function reports 8. From a maximum of 2000 the same threshold is
  reached after 10 iterations, and the function, which is not given the maximum, still
  reports 8.
\<close>

theorem displayed_iterations_not_counted_from_max:
  "displayMinRequiredTopUp
     \<lparr> bigInts = [1000, 100, 100], byteArrays = [], ownerStructs = [], logLevel = LogDebug \<rparr>
     (Some 0) (Some 1) (Some 2)
   = Inr ([Info ''auctionListSelector: found min required''
            [''topUp'', ''900'', ''after num of iterations'', ''8'']],
          \<lparr> bigInts = [1000, 100, 100, 900, 800, 8], byteArrays = [], ownerStructs = [],
            logLevel = LogDebug \<rparr>)
   \<and> Itoa ((1000 - 1000) div 100) = ''0''
   \<and> ''8'' \<noteq> Itoa ((1000 - 1000) div 100)
   \<and> Itoa ((2000 - 1000) div 100) = ''10''
   \<and> ''8'' \<noteq> Itoa ((2000 - 1000) div 100)"
  by code_simp

subsection \<open>The displayer: the selected prefix stays within bounds\<close>

text \<open>
  Claim C5. When every owner aggregate handed to \<^verbatim>\<open>displayOwnersSelectedNodes\<close> has
  \<^verbatim>\<open>numQualifiedAuctionNodes \<le> numAuctionNodes\<close> and \<^verbatim>\<open>numAuctionNodes\<close> equal to the
  length of its auction list, the slice \<^verbatim>\<open>auctionList[:numQualifiedAuctionNodes]\<close> is
  the prefix of that length and the run never ends in the out-of-range panic.
\<close>

theorem selected_prefix_within_bounds:
  assumes "\<forall>entry \<in> set ownersData.
             \<forall>owner. loadOwner s (snd entry) = Inr owner \<longrightarrow> withinBounds owner"
  shows "displayOwnersSelectedNodes cts s ownersData \<noteq> Inl SliceBoundsOutOfRange
         \<and> (\<forall>entry \<in> set ownersData. \<forall>owner. loadOwner s (snd entry) = Inr owner \<longrightarrow>
               sliceOf (auctionList owner) 0 (numQualifiedAuctionNodes owner)
                 = Inr (take (numQualifiedAuctionNodes owner) (auctionList owner)))"
proof
  from ownersSelectedLines_in_bounds [OF assms, of "[]"]
  show "displayOwnersSelectedNodes cts s ownersData \<noteq> Inl SliceBoundsOutOfRange"
    by (auto simp: displayOwnersSelectedNodes_def andThen_Inl_iff Let_def)
next
  from assms
  show "\<forall>entry \<in> set ownersData. \<forall>owner. loadOwner s (snd entry) = Inr owner \<longrightarrow>
          sliceOf (auctionList owner) 0 (numQualifiedAuctionNodes owner)
            = Inr (take (numQualifiedAuctionNodes owner) (auctionList owner))"
    by (auto simp: withinBounds_def sliceOf_prefix)
qed

theorem selected_prefix_within_bounds_witness:
  "withinBounds \<lparr> numStakedNodes = 3, numActiveNodes = 1, numAuctionNodes = 2,
       numQualifiedAuctionNodes = 1, totalTopUp = Some 0, topUpPerNode = Some 1,
       qualifiedTopUpPerNode = Some 2,
       auctionList = [\<lparr>publicKey = Some 0\<rparr>, \<lparr>publicKey = Some 1\<rparr>] \<rparr>
   \<and> displayOwnersSelectedNodes (\<lambda>header lines. Inr (concat (map (\<lambda>l. concat (Values l)) lines)))
       \<lparr> bigInts = [3000, 1000, 1500],
         byteArrays = [''0123456789abcdefghijklmnopqrstuv'', ''key2''],
         ownerStructs = [\<lparr> numStakedNodes = 3, numActiveNodes = 1, numAuctionNodes = 2,
            numQualifiedAuctionNodes = 1, totalTopUp = Some 0, topUpPerNode = Some 1,
            qualifiedTopUpPerNode = Some 2,
            auctionList = [\<lparr>publicKey = Some 0\<rparr>, \<lparr>publicKey = Some 1\<rparr>] \<rparr>],
         logLevel = LogInfo \<rparr>
       [(''owner1'', Some 0)]
     \<noteq> Inl SliceBoundsOutOfRange
   \<and> sliceOf [\<lparr>publicKey = Some 0\<rparr>, \<lparr>publicKey = Some (1::nat)\<rparr>] 0 1 = Inr [\<lparr>publicKey = Some 0\<rparr>]"
  using selected_prefix_within_bounds [of "[(''owner1'', Some 0)]"
      "\<lparr> bigInts = [3000, 1000, 1500],
         byteArrays = [''0123456789abcdefghijklmnopqrstuv'', ''key2''],
         ownerStructs = [\<lparr> numStakedNodes = 3, numActiveNodes = 1, numAuctionNodes = 2,
            numQualifiedAuctionNodes = 1, totalTopUp = Some 0, topUpPerNode = Some 1,
            qualifiedTopUpPerNode = Some 2,
            auctionList = [\<lparr>publicKey = Some 0\<rparr>, \<lparr>publicKey = Some 1\<rparr>] \<rparr>],
         logLevel = LogInfo \<rparr>"
      "\<lambda>header lines. Inr (concat (map (\<lambda>l. concat (Values l)) lines))"]
  by (simp add: loadOwner_def withinBounds_def)

text \<open>Without the bound the panic is reached: three qualified nodes in a list of two.\<close>

lemma selected_prefix_beyond_length_panics:
  "displayOwnersSelectedNodes cts
       \<lparr> bigInts = [3000, 1000, 1500],
         byteArrays = [''key1'', ''key2''],
         ownerStructs = [\<lparr> numStakedNodes = 3, numActiveNodes = 1, numAuctionNodes = 2,
            numQualifiedAuctionNodes = 3, totalTopUp = Some 0, topUpPerNode = Some 1,
            qualifiedTopUpPerNode = Some 2,
            auctionList = [\<lparr>publicKey = Some 0\<rparr>, \<lparr>publicKey = Some 1\<rparr>] \<rparr>],
         logLevel = LogInfo \<rparr>
       [(''owner1'', Some 0)]
     = Inl SliceBoundsOutOfRange"
  by (simp add: displayOwnersSelectedNodes_def loadOwner_def String_def sliceOf_def)

subsection \<open>The displayer: nothing it is given changes\<close>

text \<open>
  Claim C6. A run of \<^verbatim>\<open>displayMinRequiredTopUp\<close>, \<^verbatim>\<open>displayOwnersData\<close>,
  \<^verbatim>\<open>displayOwnersSelectedNodes\<close> or \<^verbatim>\<open>displayAuctionList\<close> that returns leaves every
  cell of the store it started from as it was: each big integer (the thresholds, every
  owner's \<^verbatim>\<open>totalTopUp\<close>, \<^verbatim>\<open>topUpPerNode\<close>, \<^verbatim>\<open>qualifiedTopUpPerNode\<close>), the bytes of
  each public key and each owner struct (counts, pointers, auction list) read the same
  afterwards. What a run writes, it writes into cells it allocated itself. The functions
  return nothing but their logger calls.
\<close>

theorem display_leaves_inputs_unchanged:
  "(displayMinRequiredTopUp s topUp min' step = Inr (out, s') \<longrightarrow> unchangedBy s s')
   \<and> (displayOwnersData cts s ownersData = Inr (out, s') \<longrightarrow> unchangedBy s s')
   \<and> (displayOwnersSelectedNodes cts s ownersData = Inr (out, s') \<longrightarrow> unchangedBy s s')
   \<and> (displayAuctionList cts getBlsKeyOwner s vs ownersData numOfSelectedNodes = Inr (out, s')
        \<longrightarrow> s' = s)
   \<and> (unchangedBy s s' \<longrightarrow>
        (\<forall>p v. loadBig s p = Inr v \<longrightarrow> loadBig s' p = Inr v)
        \<and> (\<forall>p bs. loadBytes s p = Inr bs \<longrightarrow> loadBytes s' p = Inr bs)
        \<and> (\<forall>p. loadOwner s' p = loadOwner s p))"
proof (intro conjI impI)
  assume "displayMinRequiredTopUp s topUp min' step = Inr (out, s')"
  then show "unchangedBy s s'" by (rule displayMinRequiredTopUp_keeps)
next
  assume "displayOwnersData cts s ownersData = Inr (out, s')"
  then show "unchangedBy s s'"
    by (clarsimp simp: displayOwnersData_def andThen_Inr_iff Let_def ownersDataLines_keeps)
next
  assume "displayOwnersSelectedNodes cts s ownersData = Inr (out, s')"
  then show "unchangedBy s s'"
    by (clarsimp simp: displayOwnersSelectedNodes_def andThen_Inr_iff Let_def ownersSelectedLines_keeps)
next
  assume "displayAuctionList cts getBlsKeyOwner s vs ownersData numOfSelectedNodes = Inr (out, s')"
  then show "s' = s"
    by (clarsimp simp: displayAuctionList_def andThen_Inr_iff Let_def)
next
  assume u: "unchangedBy s s'"
  from unchangedBy_reads [OF u] show "\<forall>p v. loadBig s p = Inr v \<longrightarrow> loadBig s' p = Inr v" by blast
  from unchangedBy_reads [OF u] show "\<forall>p bs. loadBytes s p = Inr bs \<longrightarrow> loadBytes s' p = Inr bs" by blast
  from unchangedBy_reads [OF u] show "\<forall>p. loadOwner s' p = loadOwner s p" by blast
qed

theorem display_leaves_inputs_unchanged_witness:
  "(let cts = (\<lambda>header lines. Inr (concat (map (\<lambda>l. concat (Values l)) lines)));
        getBlsKeyOwner = (\<lambda>key. if key = ''key2'' then Inr ''owner1'' else Inl ''unknown key'');
        owner = \<lparr> numStakedNodes = 3, numActiveNodes = 1, numAuctionNodes = 2,
                  numQualifiedAuctionNodes = 1, totalTopUp = Some 0, topUpPerNode = Some 1,
                  qualifiedTopUpPerNode = Some 2,
                  auctionList = [\<lparr>publicKey = Some 0\<rparr>, \<lparr>publicKey = Some 1\<rparr>] \<rparr>;
        keys = [''0123456789abcdefghijklmnopqrstuv'', ''key2''];
        s = \<lparr> bigInts = [3000, 1000, 1500], byteArrays = keys, ownerStructs = [owner],
              logLevel = LogInfo \<rparr>;
        s1 = \<lparr> bigInts = [3000, 1000, 1500, 1500, 500, 0], byteArrays = keys,
               ownerStructs = [owner], logLevel = LogInfo \<rparr>;
        s2 = \<lparr> bigInts = [3000, 1000, 1500],
               byteArrays = keys @ [''0123456789...mnopqrstuv''],
               ownerStructs = [owner], logLevel = LogInfo \<rparr>
    in displayMinRequiredTopUp s (Some 0) (Some 1) (Some 2)
         = Inr ([Info ''auctionListSelector: found min required''
                  [''topUp'', ''1500'', ''after num of iterations'', ''0'']], s1)
       \<and> unchangedBy s s1
       \<and> displayOwnersData cts s [(''owner1'', Some 0)]
         = Inr ([Info (''Initial nodes config in auction list'' @ [CHR 0x0A]
                       @ ''owner1312300010000123456789...mnopqrstuv, key2'') []], s2)
       \<and> displayOwnersSelectedNodes cts s [(''owner1'', Some 0)]
         = Inr ([Info (''Selected nodes config from auction list'' @ [CHR 0x0A]
                       @ ''owner131000300021115000123456789...mnopqrstuv'') []], s2)
       \<and> unchangedBy s s2
       \<and> displayAuctionList cts getBlsKeyOwner s
             [\<lparr>publicKey = Some 0\<rparr>, \<lparr>publicKey = Some 1\<rparr>] [(''owner1'', Some 0)] 1
         = Inr ([Error ''auctionListSelector.displayAuctionList'' [''error'', ''unknown key''],
                 Info (''Final selected nodes from auction list'' @ [CHR 0x0A]
                       @ ''owner1key21500'') []], s)
       \<and> loadBig s2 (Some 2) = Inr 1500
       \<and> loadBytes s2 (Some 0) = Inr ''0123456789abcdefghijklmnopqrstuv''
       \<and> loadOwner s2 (Some 0) = Inr owner)"
proof -
  let ?cts = "\<lambda>(header :: string list) lines. (Inr (concat (map (\<lambda>l. concat (Values l)) lines)) :: string + string)"
  let ?gbo = "\<lambda>key. if key = ''key2'' then (Inr ''owner1'' :: string + string) else Inl ''unknown key''"
  let ?owner = "\<lparr> numStakedNodes = 3, numActiveNodes = 1, numAuctionNodes = 2,
                  numQualifiedAuctionNodes = 1, totalTopUp = Some 0, topUpPerNode = Some 1,
                  qualifiedTopUpPerNode = Some 2,
                  auctionList = [\<lparr>publicKey = Some 0\<rparr>, \<lparr>publicKey = Some 1\<rparr>] \<rparr>"
  let ?keys = "[''0123456789abcdefghijklmnopqrstuv'', ''key2'']"
  let ?s = "\<lparr> bigInts = [3000, 1000, 1500], byteArrays = ?keys, ownerStructs = [?owner],
              logLevel = LogInfo \<rparr>"
  let ?s1 = "\<lparr> bigInts = [3000, 1000, 1500, 1500, 500, 0], byteArrays = ?keys,
               ownerStructs = [?owner], logLevel = LogInfo \<rparr>"
  let ?s2 = "\<lparr> bigInts = [3000, 1000, 1500],
               byteArrays = ?keys @ [''0123456789...mnopqrstuv''],
               ownerStructs = [?owner], logLevel = LogInfo \<rparr>"
  have r1: "displayMinRequiredTopUp ?s (Some 0) (Some 1) (Some 2)
         = Inr ([Info ''auctionListSelector: found min required''
                  [''topUp'', ''1500'', ''after num of iterations'', ''0'']], ?s1)"
    by code_simp
  have r2: "displayOwnersData ?cts ?s [(''owner1'', Some 0)]
         = Inr ([Info (''Initial nodes config in auction list'' @ [CHR 0x0A]
                       @ ''owner1312300010000123456789...mnopqrstuv, key2'') []], ?s2)"
    by code_simp
  have r3: "displayOwnersSelectedNodes ?cts ?s [(''owner1'', Some 0)]
         = Inr ([Info (''Selected nodes config from auction list'' @ [CHR 0x0A]
                       @ ''owner131000300021115000123456789...mnopqrstuv'') []], ?s2)"
    by code_simp
  have r4: "displayAuctionList ?cts ?gbo ?s
             [\<lparr>publicKey = Some 0\<rparr>, \<lparr>publicKey = Some 1\<rparr>] [(''owner1'', Some 0)] 1
         = Inr ([Error ''auctionListSelector.displayAuctionList'' [''error'', ''unknown key''],
                 Info (''Final selected nodes from auction list'' @ [CHR 0x0A]
                       @ ''owner1key21500'') []], ?s)"
    by code_simp
  have u1: "unchangedBy ?s ?s1"
    using display_leaves_inputs_unchanged r1 by blast
  have u2: "unchangedBy ?s ?s2"
    using display_leaves_inputs_unchanged r3 by blast
  have reads: "loadBig ?s2 (Some 2) = Inr 1500"
    "loadBytes ?s2 (Some 0) = Inr ''0123456789abcdefghijklmnopqrstuv''"
    "loadOwner ?s2 (Some 0) = Inr ?owner"
    by (simp_all add: loadBig_def loadBytes_def loadOwner_def)
  show ?thesis
    by (simp only: Let_def r1 r2 r3 r4 u1 u2 reads simp_thms)
qed

subsection \<open>The displayer: the log level\<close>

text \<open>
  Claim C7, as amended. None of the four display functions looks at the log level (the
  guard is commented out in each): run at any level \<open>l\<close>, a function does exactly what
  it does at every other level. It renders, and a run that returns has called the
  logger at least once (\<^verbatim>\<open>log.Info\<close> with the rendered text, or \<^verbatim>\<open>log.Error\<close> when the
  table cannot be built). The run returns nothing but these calls and leaves the store
  it was given unchanged, so whatever is computed from that store is the same whether
  or not the function ran.
\<close>

theorem display_runs_at_every_log_level:
  "displayMinRequiredTopUp (s\<lparr>logLevel := l\<rparr>) topUp min' step
     = atLevel l (displayMinRequiredTopUp s topUp min' step)
   \<and> displayOwnersData cts (s\<lparr>logLevel := l\<rparr>) ownersData
     = atLevel l (displayOwnersData cts s ownersData)
   \<and> displayOwnersSelectedNodes cts (s\<lparr>logLevel := l\<rparr>) ownersData
     = atLevel l (displayOwnersSelectedNodes cts s ownersData)
   \<and> displayAuctionList cts getBlsKeyOwner (s\<lparr>logLevel := l\<rparr>) vs ownersData numOfSelectedNodes
     = atLevel l (displayAuctionList cts getBlsKeyOwner s vs ownersData numOfSelectedNodes)
   \<and> (displayMinRequiredTopUp s topUp min' step = Inr (out, s') \<longrightarrow>
        out \<noteq> [] \<and> unchangedBy s s')
   \<and> (displayOwnersData cts s ownersData = Inr (out, s') \<longrightarrow> out \<noteq> [] \<and> unchangedBy s s')
   \<and> (displayOwnersSelectedNodes cts s ownersData = Inr (out, s') \<longrightarrow>
        out \<noteq> [] \<and> unchangedBy s s')
   \<and> (displayAuctionList cts getBlsKeyOwner s vs ownersData numOfSelectedNodes = Inr (out, s')
        \<longrightarrow> out \<noteq> [] \<and> s' = s)"
proof (intro conjI impI)
  show "displayMinRequiredTopUp (s\<lparr>logLevel := l\<rparr>) topUp min' step
     = atLevel l (displayMinRequiredTopUp s topUp min' step)"
    by (rule displayMinRequiredTopUp_ignores_level)
  show "displayOwnersData cts (s\<lparr>logLevel := l\<rparr>) ownersData
     = atLevel l (displayOwnersData cts s ownersData)"
    by (cases "ownersDataLines s ownersData []")
       (auto simp: displayOwnersData_def ownersDataLines_ignores_level Let_def)
  show "displayOwnersSelectedNodes cts (s\<lparr>logLevel := l\<rparr>) ownersData
     = atLevel l (displayOwnersSelectedNodes cts s ownersData)"
    by (cases "ownersSelectedLines s ownersData []")
       (auto simp: displayOwnersSelectedNodes_def ownersSelectedLines_ignores_level Let_def)
  show "displayAuctionList cts getBlsKeyOwner (s\<lparr>logLevel := l\<rparr>) vs ownersData numOfSelectedNodes
     = atLevel l (displayAuctionList cts getBlsKeyOwner s vs ownersData numOfSelectedNodes)"
    by (cases "auctionListLines getBlsKeyOwner s ownersData numOfSelectedNodes 0 vs [] []")
       (auto simp: displayAuctionList_def auctionListLines_ignores_level Let_def)
next
  assume run: "displayMinRequiredTopUp s topUp min' step = Inr (out, s')"
  then show "unchangedBy s s'" by (rule displayMinRequiredTopUp_keeps)
  from run show "out \<noteq> []"
    by (auto simp: displayMinRequiredTopUp_def andThen_Inr_iff NewInt_def split: if_splits)
next
  assume run: "displayOwnersData cts s ownersData = Inr (out, s')"
  then show "unchangedBy s s'"
    by (clarsimp simp: displayOwnersData_def andThen_Inr_iff Let_def ownersDataLines_keeps)
  from run show "out \<noteq> []"
    by (clarsimp simp: displayOwnersData_def andThen_Inr_iff Let_def displayTable_calls_logger)
next
  assume run: "displayOwnersSelectedNodes cts s ownersData = Inr (out, s')"
  then show "unchangedBy s s'"
    by (clarsimp simp: displayOwnersSelectedNodes_def andThen_Inr_iff Let_def ownersSelectedLines_keeps)
  from run show "out \<noteq> []"
    by (clarsimp simp: displayOwnersSelectedNodes_def andThen_Inr_iff Let_def displayTable_calls_logger)
next
  assume run: "displayAuctionList cts getBlsKeyOwner s vs ownersData numOfSelectedNodes = Inr (out, s')"
  then show "s' = s"
    by (clarsimp simp: displayAuctionList_def andThen_Inr_iff Let_def)
  from run show "out \<noteq> []"
    by (clarsimp simp: displayAuctionList_def andThen_Inr_iff Let_def displayTable_calls_logger)
qed

theorem display_runs_at_every_log_level_witness:
  "aboveDebug LogNone
   \<and> displayMinRequiredTopUp
       (\<lparr> bigInts = [500, 100, 50], byteArrays = [], ownerStructs = [], logLevel = LogDebug \<rparr>
          \<lparr>logLevel := LogNone\<rparr>)
       (Some 0) (Some 1) (Some 2)
     = Inr ([Info ''auctionListSelector: found min required''
              [''topUp'', ''450'', ''after num of iterations'', ''7'']],
            \<lparr> bigInts = [500, 100, 50, 450, 350, 7], byteArrays = [], ownerStructs = [],
              logLevel = LogNone \<rparr>)
   \<and> unchangedBy \<lparr> bigInts = [500, 100, 50], byteArrays = [], ownerStructs = [], logLevel = LogDebug \<rparr>
        \<lparr> bigInts = [500, 100, 50, 450, 350, 7], byteArrays = [], ownerStructs = [],
              logLevel = LogDebug \<rparr>"
proof -
  let ?s = "\<lparr> bigInts = [500, 100, 50], byteArrays = [], ownerStructs = [], logLevel = LogDebug \<rparr>"
  let ?s' = "\<lparr> bigInts = [500, 100, 50, 450, 350, 7], byteArrays = [], ownerStructs = [],
              logLevel = LogDebug \<rparr>"
  let ?out = "[Info ''auctionListSelector: found min required''
              [''topUp'', ''450'', ''after num of iterations'', ''7'']]"
  have run: "displayMinRequiredTopUp ?s (Some 0) (Some 1) (Some 2) = Inr (?out, ?s')"
    by code_simp
  have lvl: "displayMinRequiredTopUp (?s\<lparr>logLevel := LogNone\<rparr>) (Some 0) (Some 1) (Some 2)
      = atLevel LogNone (displayMinRequiredTopUp ?s (Some 0) (Some 1) (Some 2))"
    using display_runs_at_every_log_level by blast
  have kept: "unchangedBy ?s ?s'"
    using display_runs_at_every_log_level run by blast
  have "aboveDebug LogNone" by (simp add: aboveDebug_def)
  with kept show ?thesis unfolding lvl run by simp
qed

text \<open>
  Claim C7 as stated fails: at level \<^verbatim>\<open>LogInfo\<close>, which is above \<^verbatim>\<open>LogDebug\<close>,
  \<^verbatim>\<open>displayMinRequiredTopUp\<close> computes both numbers and hands them to \<^verbatim>\<open>log.Info\<close>; it
  does not return at once with no output.
\<close>

theorem display_not_silenced_above_debug:
  "aboveDebug LogInfo
   \<and> displayMinRequiredTopUp
       \<lparr> bigInts = [500, 100, 50], byteArrays = [], ownerStructs = [], logLevel = LogInfo \<rparr>
       (Some 0) (Some 1) (Some 2)
     = Inr ([Info ''auctionListSelector: found min required''
              [''topUp'', ''450'', ''after num of iterations'', ''7'']],
            \<lparr> bigInts = [500, 100, 50, 450, 350, 7], byteArrays = [], ownerStructs = [],
              logLevel = LogInfo \<rparr>)
   \<and> displayMinRequiredTopUp
       \<lparr> bigInts = [500, 100, 50], byteArrays = [], ownerStructs = [], logLevel = LogInfo \<rparr>
       (Some 0) (Some 1) (Some 2)
     \<noteq> Inr ([], \<lparr> bigInts = [500, 100, 50], byteArrays = [], ownerStructs = [], logLevel = LogInfo \<rparr>)"
  by code_simp

subsection \<open>The selector's per-owner figures\<close>

text \<open>
  Claim C3. For a top-up total that is not negative, with
  \<^verbatim>\<open>numStakedNodes = numActiveNodes + numAuctionNodes \<ge> 1\<close> and
  \<^verbatim>\<open>numActiveNodes + numQualifiedAuctionNodes \<ge> 1\<close>: whenever fewer auction nodes qualify
  than the owner has, \<^verbatim>\<open>qualifiedTopUpPerNode\<close> is at least \<^verbatim>\<open>topUpPerNode\<close>, both
  computed by integer division rounding down.
\<close>

theorem qualified_top_up_not_below_average:
  assumes "0 \<le> totalStake" and "numStaked = numActive + numAuction" and "1 \<le> numStaked"
    and "1 \<le> numActive + numQualified" and "numQualified < numAuction"
  shows "topUpPerNodeOf totalStake numStaked
           \<le> qualifiedTopUpPerNodeOf totalStake numActive numQualified"
proof -
  from assms have "int (numActive + numQualified) \<le> int numStaked" by simp
  moreover from assms have "0 < int (numActive + numQualified)" by simp
  ultimately show ?thesis
    unfolding topUpPerNodeOf_def qualifiedTopUpPerNodeOf_def
    using assms(1) by (simp add: zdiv_mono2)
qed

theorem qualified_top_up_not_below_average_witness:
  "(0::int) \<le> 3000 \<and> (3::nat) = 1 + 2 \<and> (1::nat) \<le> 3 \<and> (1::nat) \<le> 1 + 1 \<and> (1::nat) < 2
   \<and> topUpPerNodeOf 3000 3 = 1000 \<and> qualifiedTopUpPerNodeOf 3000 1 1 = 1500
   \<and> topUpPerNodeOf 3000 3 \<le> qualifiedTopUpPerNodeOf 3000 1 1"
  using qualified_top_up_not_below_average [of 3000 3 1 2 1]
  by (simp add: topUpPerNodeOf_def qualifiedTopUpPerNodeOf_def)

text \<open>The two figures can be equal: the inequality is not strict.\<close>

lemma qualified_top_up_may_equal_average:
  "topUpPerNodeOf 0 3 = qualifiedTopUpPerNodeOf 0 1 1
   \<and> topUpPerNodeOf 1 3 = qualifiedTopUpPerNodeOf 1 1 1"
  by (simp add: topUpPerNodeOf_def qualifiedTopUpPerNodeOf_def)

subsection \<open>The selected keys of an owner\<close>

lemma getShortKey_shortForm:
  assumes "loadBytes s pubKey = Inr key"
  shows "\<exists>s'. getShortKey s pubKey = Inr (shortForm key, s') \<and> unchangedBy s s'"
  using getShortKey_value [OF assms] by (auto simp: shortForm_def)

lemma keyOf_unchangedBy:
  assumes "unchangedBy s s'" and "loadBytes s (publicKey v) = Inr bs"
  shows "keyOf s' v = keyOf s v"
  using unchangedBy_reads [OF assms(1)] assms(2) by (simp add: keyOf_def)

lemma keysOf_unchangedBy:
  assumes "unchangedBy s s'" and "\<forall>v \<in> set vs. \<exists>bs. loadBytes s (publicKey v) = Inr bs"
  shows "keysOf s' vs = keysOf s vs"
  using assms by (auto simp: keysOf_def dest: keyOf_unchangedBy)

lemma joinKeys_Cons: "ks \<noteq> [] \<Longrightarrow> joinKeys (k # ks) = k @ '', '' @ joinKeys ks"
  by (cases ks) simp_all

lemma shortKeysFrom_joinKeys:
  assumes "\<forall>v \<in> set vs. \<exists>bs. loadBytes s (publicKey v) = Inr bs" and "idx + length vs = n"
  shows "\<exists>s'. shortKeysFrom s n idx pubKeys vs
            = Inr (pubKeys @ joinKeys (map shortForm (keysOf s vs)), s')
          \<and> unchangedBy s s'"
  using assms
proof (induction vs arbitrary: s idx pubKeys)
  case Nil
  show ?case by (simp add: keysOf_def unchangedBy_refl)
next
  case (Cons validator rest)
  from Cons.prems(1) obtain key where key: "loadBytes s (publicKey validator) = Inr key"
    by auto
  from getShortKey_shortForm [OF key] obtain s1 where
    first: "getShortKey s (publicKey validator) = Inr (shortForm key, s1)"
    and kept: "unchangedBy s s1"
    by blast
  from Cons.prems(1) unchangedBy_reads [OF kept] have
    readable1: "\<forall>v \<in> set rest. \<exists>bs. loadBytes s1 (publicKey v) = Inr bs"
    by auto
  from Cons.prems(2) have idx1: "(idx + 1) + length rest = n" by simp
  from Cons.prems(1) kept have keys1: "keysOf s1 rest = keysOf s rest"
    by (intro keysOf_unchangedBy) auto
  have k0: "keyOf s validator = key" using key by (simp add: keyOf_def)
  show ?case
  proof (cases "rest = []")
    case True
    with Cons.prems(2) have "int idx = int n - 1" by simp
    with first True kept k0 show ?thesis
      by (simp add: keysOf_def Let_def)
  next
    case False
    with Cons.prems(2) have delim: "int idx \<noteq> int n - 1" by (cases rest) auto
    from Cons.IH [OF readable1 idx1, of "(pubKeys @ shortForm key) @ '', ''"] obtain s' where
      run: "shortKeysFrom s1 n (idx + 1) ((pubKeys @ shortForm key) @ '', '') rest
              = Inr (((pubKeys @ shortForm key) @ '', '') @ joinKeys (map shortForm (keysOf s1 rest)), s')"
      and kept': "unchangedBy s1 s'"
      by blast
    from False have "map shortForm (keysOf s rest) \<noteq> []" by (simp add: keysOf_def)
    then have "joinKeys (map shortForm (keysOf s (validator # rest)))
        = shortForm key @ '', '' @ joinKeys (map shortForm (keysOf s rest))"
      using k0 by (simp add: keysOf_def joinKeys_Cons)
    with first delim run keys1 unchangedBy_trans [OF kept kept'] show ?thesis
      by (simp add: Let_def)
  qed
qed

lemma getShortDisplayableBlsKeys_joinKeys:
  assumes "\<forall>v \<in> set vs. \<exists>bs. loadBytes s (publicKey v) = Inr bs"
  shows "\<exists>s'. getShortDisplayableBlsKeys s vs = Inr (joinKeys (map shortForm (keysOf s vs)), s')
          \<and> unchangedBy s s'"
  using shortKeysFrom_joinKeys [OF assms, of 0 "length vs" "[]"]
  by (simp add: getShortDisplayableBlsKeys_def)

lemma String_unchangedBy:
  assumes "unchangedBy s s'" and "String s p = Inr t"
  shows "String s' p = Inr t"
  using assms
  by (auto simp: String_def unchangedBy_def prefix_def nth_append split: option.splits if_splits)

lemma ownersSelectedLines_value:
  assumes "unchangedBy base t"
    and "\<forall>entry \<in> set ownersData. \<exists>owner. loadOwner base (snd entry) = Inr owner
           \<and> readable base owner
           \<and> numQualifiedAuctionNodes owner \<le> length (auctionList owner)"
  shows "\<exists>lines' t'. ownersSelectedLines t ownersData lines = Inr (lines @ lines', t')
           \<and> unchangedBy base t' \<and> length lines' = length ownersData
           \<and> (\<forall>i < length ownersData. \<forall>owner. loadOwner base (snd (ownersData ! i)) = Inr owner \<longrightarrow>
                 last (Values (lines' ! i))
                   = joinKeys (map shortForm
                       (keysOf base (take (numQualifiedAuctionNodes owner) (auctionList owner)))))"
  using assms
proof (induction ownersData arbitrary: t lines)
  case Nil
  then show ?case by simp
next
  case (Cons entry rest)
  obtain ownerPubKey ownerPtr where entry: "entry = (ownerPubKey, ownerPtr)" by (cases entry)
  from Cons.prems(2) entry obtain owner where
    owner: "loadOwner base ownerPtr = Inr owner" and rd: "readable base owner"
    and nq: "numQualifiedAuctionNodes owner \<le> length (auctionList owner)"
    by auto
  let ?sel = "take (numQualifiedAuctionNodes owner) (auctionList owner)"
  from unchangedBy_reads [OF Cons.prems(1)] owner have owner_t: "loadOwner t ownerPtr = Inr owner"
    by simp
  from rd obtain t1 t2 t3 where
    "String base (topUpPerNode owner) = Inr t1" "String base (totalTopUp owner) = Inr t2"
    "String base (qualifiedTopUpPerNode owner) = Inr t3"
    by (auto simp: readable_def)
  then have texts: "String t (topUpPerNode owner) = Inr t1" "String t (totalTopUp owner) = Inr t2"
    "String t (qualifiedTopUpPerNode owner) = Inr t3"
    using Cons.prems(1) by (auto intro: String_unchangedBy)
  from nq have slice: "sliceOf (auctionList owner) 0 (numQualifiedAuctionNodes owner) = Inr ?sel"
    by (simp add: sliceOf_prefix)
  from rd have base_keys: "\<forall>v \<in> set ?sel. \<exists>bs. loadBytes base (publicKey v) = Inr bs"
    by (auto simp: readable_def dest: in_set_takeD)
  with unchangedBy_reads [OF Cons.prems(1)] have
    t_keys: "\<forall>v \<in> set ?sel. \<exists>bs. loadBytes t (publicKey v) = Inr bs"
    by blast
  from getShortDisplayableBlsKeys_joinKeys [OF t_keys] obtain u where
    shown: "getShortDisplayableBlsKeys t ?sel = Inr (joinKeys (map shortForm (keysOf t ?sel)), u)"
    and kept: "unchangedBy t u"
    by blast
  from keysOf_unchangedBy [OF Cons.prems(1) base_keys] have same: "keysOf t ?sel = keysOf base ?sel" .
  let ?line = "NewLineData False
      [ownerPubKey, Itoa (int (numStakedNodes owner)), t1, t2, Itoa (int (numAuctionNodes owner)),
       Itoa (int (numQualifiedAuctionNodes owner)), Itoa (int (numActiveNodes owner)), t3,
       joinKeys (map shortForm (keysOf base ?sel))]"
  have step: "ownersSelectedLines t (entry # rest) lines
      = ownersSelectedLines u rest (lines @ [?line])"
    using entry owner_t texts slice shown same by (simp add: Let_def)
  from Cons.prems(2) have rest_ok: "\<forall>entry \<in> set rest. \<exists>owner. loadOwner base (snd entry) = Inr owner
           \<and> readable base owner
           \<and> numQualifiedAuctionNodes owner \<le> length (auctionList owner)"
    by simp
  from Cons.IH [OF unchangedBy_trans [OF Cons.prems(1) kept] rest_ok, of "lines @ [?line]"]
  obtain lines'' t' where
    run: "ownersSelectedLines u rest (lines @ [?line]) = Inr ((lines @ [?line]) @ lines'', t')"
    and kept': "unchangedBy base t'" and len: "length lines'' = length rest"
    and cols: "\<forall>i < length rest. \<forall>owner. loadOwner base (snd (rest ! i)) = Inr owner \<longrightarrow>
                 last (Values (lines'' ! i))
                   = joinKeys (map shortForm
                       (keysOf base (take (numQualifiedAuctionNodes owner) (auctionList owner))))"
    by blast
  have "\<forall>i < length (entry # rest). \<forall>owner'. loadOwner base (snd ((entry # rest) ! i)) = Inr owner' \<longrightarrow>
                 last (Values ((?line # lines'') ! i))
                   = joinKeys (map shortForm
                       (keysOf base (take (numQualifiedAuctionNodes owner') (auctionList owner'))))"
  proof (intro allI impI)
    fix i owner'
    assume i: "i < length (entry # rest)"
      and o': "loadOwner base (snd ((entry # rest) ! i)) = Inr owner'"
    show "last (Values ((?line # lines'') ! i))
                   = joinKeys (map shortForm
                       (keysOf base (take (numQualifiedAuctionNodes owner') (auctionList owner'))))"
    proof (cases i)
      case 0
      with o' entry owner have "owner' = owner" by simp
      with 0 show ?thesis by (simp add: NewLineData_def)
    next
      case (Suc j)
      with i o' cols show ?thesis by simp
    qed
  qed
  with step run kept' len show ?case
    by (intro exI [of _ "?line # lines''"] exI [of _ t']) simp
qed

lemma sorted_prefix_below_rest:
  assumes "sorted xs" and "distinct xs"
  shows "\<forall>x \<in> set (take k xs). \<forall>y \<in> set xs - set (take k xs). x < (y :: 'a :: linorder)"
proof (intro ballI)
  fix x y
  assume x: "x \<in> set (take k xs)" and y: "y \<in> set xs - set (take k xs)"
  from y have "y \<in> set (drop k xs)"
    by (metis DiffD1 DiffD2 UnE append_take_drop_id set_append)
  moreover from assms(1) have "\<forall>a \<in> set (take k xs). \<forall>b \<in> set (drop k xs). a \<le> b"
    using sorted_append [of "take k xs" "drop k xs"] by simp
  ultimately have "x \<le> y" using x by blast
  moreover from x y have "x \<noteq> y" by auto
  ultimately show "x < y" by simp
qed

lemma ordered_keys:
  "sorted (keysOf s (ascendingByPublicKey s vs))
   \<and> set (keysOf s (ascendingByPublicKey s vs)) = set (keysOf s vs)
   \<and> length (ascendingByPublicKey s vs) = length vs
   \<and> set (ascendingByPublicKey s vs) = set vs
   \<and> (distinct (keysOf s vs) \<longrightarrow> distinct (keysOf s (ascendingByPublicKey s vs)))"
  by (simp add: keysOf_def ascendingByPublicKey_def distinct_map)

lemma ownersOrdered_reads [simp]:
  "loadBytes (ownersOrdered s) p = loadBytes s p"
  "String (ownersOrdered s) p = String s p"
  "keyOf (ownersOrdered s) v = keyOf s v"
  by (simp_all add: ownersOrdered_def loadBytes_def String_def keyOf_def split: option.splits)

lemma keysOf_ownersOrdered [simp]: "keysOf (ownersOrdered s) vs = keysOf s vs"
  by (simp add: keysOf_def)

lemma loadOwner_ownersOrdered:
  "loadOwner s p = Inr owner \<Longrightarrow>
     loadOwner (ownersOrdered s) p
       = Inr (owner\<lparr>auctionList := ascendingByPublicKey s (auctionList owner)\<rparr>)"
  by (auto simp: loadOwner_def ownersOrdered_def split: option.splits if_splits)

lemma readable_ownersOrdered:
  "readable s owner \<Longrightarrow>
     readable (ownersOrdered s) (owner\<lparr>auctionList := ascendingByPublicKey s (auctionList owner)\<rparr>)"
  by (simp add: readable_def ordered_keys)

lemma keysOf_take: "keysOf s (take k vs) = take k (keysOf s vs)"
  by (simp add: keysOf_def take_map)

text \<open>
  Claim C2. With every owner's auction list in ascending public key byte order, as the
  selector leaves it, \<^verbatim>\<open>displayOwnersSelectedNodes\<close> renders for each owner, as its
  selected nodes, the first \<^verbatim>\<open>numQualifiedAuctionNodes\<close> entries of that list, and
  these are exactly the \<open>k\<close> smallest of the owner's keys in byte order: there are
  \<open>k = numQualifiedAuctionNodes\<close> of them, in ascending order, each is a key of the
  owner, and each is below every key of the owner that is not rendered. (The owner
  structs are readable, the keys of an owner differ from each other and \<open>k\<close> is at
  most the number of the owner's auction nodes.)
\<close>

theorem selected_nodes_are_smallest_keys:
  assumes "\<forall>entry \<in> set ownersData. \<exists>owner. loadOwner s (snd entry) = Inr owner
             \<and> readable s owner \<and> distinct (keysOf s (auctionList owner))
             \<and> numQualifiedAuctionNodes owner \<le> length (auctionList owner)"
  shows "\<exists>lines s'.
           displayOwnersSelectedNodes cts (ownersOrdered s) ownersData
             = Inr (displayTable cts
                      [''Owner'', ''Num staked nodes'', ''TopUp per node'', ''Total top up'',
                       ''Num auction nodes'', ''Num qualified auction nodes'',
                       ''Num active nodes'', ''Qualified top up per node'',
                       ''Selected auction list nodes'']
                      lines ''Selected nodes config from auction list'', s')
           \<and> length lines = length ownersData
           \<and> (\<forall>i < length ownersData. \<forall>owner. loadOwner s (snd (ownersData ! i)) = Inr owner \<longrightarrow>
                (let shown = take (numQualifiedAuctionNodes owner)
                               (keysOf s (ascendingByPublicKey s (auctionList owner)))
                 in last (Values (lines ! i)) = joinKeys (map shortForm shown)
                    \<and> length shown = numQualifiedAuctionNodes owner
                    \<and> sorted shown
                    \<and> set shown \<subseteq> set (keysOf s (auctionList owner))
                    \<and> (\<forall>x \<in> set shown. \<forall>y \<in> set (keysOf s (auctionList owner)) - set shown. x < y)))"
proof -
  have ok: "\<forall>entry \<in> set ownersData. \<exists>owner. loadOwner (ownersOrdered s) (snd entry) = Inr owner
           \<and> readable (ownersOrdered s) owner
           \<and> numQualifiedAuctionNodes owner \<le> length (auctionList owner)"
  proof
    fix entry
    assume "entry \<in> set ownersData"
    with assms obtain owner where o: "loadOwner s (snd entry) = Inr owner" "readable s owner"
      "numQualifiedAuctionNodes owner \<le> length (auctionList owner)"
      by blast
    let ?o = "owner\<lparr>auctionList := ascendingByPublicKey s (auctionList owner)\<rparr>"
    from o have "loadOwner (ownersOrdered s) (snd entry) = Inr ?o" "readable (ownersOrdered s) ?o"
      "numQualifiedAuctionNodes ?o \<le> length (auctionList ?o)"
      by (simp_all add: loadOwner_ownersOrdered readable_ownersOrdered ordered_keys)
    then show "\<exists>owner. loadOwner (ownersOrdered s) (snd entry) = Inr owner
           \<and> readable (ownersOrdered s) owner
           \<and> numQualifiedAuctionNodes owner \<le> length (auctionList owner)"
      by blast
  qed
  from ownersSelectedLines_value [OF unchangedBy_refl ok, of "[]"] obtain lines s' where
    run: "ownersSelectedLines (ownersOrdered s) ownersData [] = Inr (lines, s')"
    and len: "length lines = length ownersData"
    and cols: "\<forall>i < length ownersData. \<forall>owner.
                 loadOwner (ownersOrdered s) (snd (ownersData ! i)) = Inr owner \<longrightarrow>
                 last (Values (lines ! i))
                   = joinKeys (map shortForm
                       (keysOf (ownersOrdered s)
                          (take (numQualifiedAuctionNodes owner) (auctionList owner))))"
    by auto
  have each: "\<forall>i < length ownersData. \<forall>owner. loadOwner s (snd (ownersData ! i)) = Inr owner \<longrightarrow>
                (let shown = take (numQualifiedAuctionNodes owner)
                               (keysOf s (ascendingByPublicKey s (auctionList owner)))
                 in last (Values (lines ! i)) = joinKeys (map shortForm shown)
                    \<and> length shown = numQualifiedAuctionNodes owner
                    \<and> sorted shown
                    \<and> set shown \<subseteq> set (keysOf s (auctionList owner))
                    \<and> (\<forall>x \<in> set shown. \<forall>y \<in> set (keysOf s (auctionList owner)) - set shown. x < y))"
  proof (intro allI impI)
    fix i owner
    assume i: "i < length ownersData" and o: "loadOwner s (snd (ownersData ! i)) = Inr owner"
    let ?all = "keysOf s (ascendingByPublicKey s (auctionList owner))"
    let ?shown = "take (numQualifiedAuctionNodes owner) ?all"
    from i assms o have d: "distinct (keysOf s (auctionList owner))"
      and nq: "numQualifiedAuctionNodes owner \<le> length (auctionList owner)"
      by (metis nth_mem old.sum.inject(2))+
    from cols i loadOwner_ownersOrdered [OF o]
    have col: "last (Values (lines ! i)) = joinKeys (map shortForm ?shown)"
      by (simp add: keysOf_take)
    from nq have l: "length ?shown = numQualifiedAuctionNodes owner"
      by (simp add: keysOf_def ordered_keys)
    from ordered_keys [of s "auctionList owner"] have srt: "sorted ?all"
      and same: "set ?all = set (keysOf s (auctionList owner))" by simp_all
    from ordered_keys [of s "auctionList owner"] d have d': "distinct ?all" by simp
    from srt have s1: "sorted ?shown" by (rule sorted_wrt_take)
    from same have sub: "set ?shown \<subseteq> set (keysOf s (auctionList owner))"
      using set_take_subset [of "numQualifiedAuctionNodes owner" ?all] by simp
    from sorted_prefix_below_rest [OF srt d', of "numQualifiedAuctionNodes owner"] same
    have below: "\<forall>x \<in> set ?shown. \<forall>y \<in> set (keysOf s (auctionList owner)) - set ?shown. x < y"
      by simp
    from col l s1 sub below
    show "let shown = ?shown
          in last (Values (lines ! i)) = joinKeys (map shortForm shown)
             \<and> length shown = numQualifiedAuctionNodes owner
             \<and> sorted shown
             \<and> set shown \<subseteq> set (keysOf s (auctionList owner))
             \<and> (\<forall>x \<in> set shown. \<forall>y \<in> set (keysOf s (auctionList owner)) - set shown. x < y)"
      by (simp only: Let_def simp_thms)
  qed
  from run have "displayOwnersSelectedNodes cts (ownersOrdered s) ownersData
             = Inr (displayTable cts
                      [''Owner'', ''Num staked nodes'', ''TopUp per node'', ''Total top up'',
                       ''Num auction nodes'', ''Num qualified auction nodes'',
                       ''Num active nodes'', ''Qualified top up per node'',
                       ''Selected auction list nodes'']
                      lines ''Selected nodes config from auction list'', s')"
    by (simp add: displayOwnersSelectedNodes_def)
  with len each show ?thesis by blast
qed

theorem selected_nodes_are_smallest_keys_witness:
  "(let cts = (\<lambda>header lines. Inr (concat (map (\<lambda>l. concat (Values l)) lines)));
        owner = \<lparr> numStakedNodes = 4, numActiveNodes = 0, numAuctionNodes = 4,
                  numQualifiedAuctionNodes = 2, totalTopUp = Some 0, topUpPerNode = Some 1,
                  qualifiedTopUpPerNode = Some 2,
                  auctionList = [\<lparr>publicKey = Some 0\<rparr>, \<lparr>publicKey = Some 1\<rparr>,
                                 \<lparr>publicKey = Some 2\<rparr>, \<lparr>publicKey = Some 3\<rparr>] \<rparr>;
        s = \<lparr> bigInts = [3000, 1000, 1500], byteArrays = [''kc'', ''ka'', ''kb'', ''k''],
              ownerStructs = [owner], logLevel = LogDebug \<rparr>
    in loadOwner s (Some 0) = Inr owner
       \<and> readable s owner
       \<and> keysOf s (auctionList owner) = [''kc'', ''ka'', ''kb'', ''k'']
       \<and> distinct (keysOf s (auctionList owner))
       \<and> numQualifiedAuctionNodes owner \<le> length (auctionList owner)
       \<and> take (numQualifiedAuctionNodes owner) (keysOf s (ascendingByPublicKey s (auctionList owner)))
           = [''k'', ''ka'']
       \<and> displayOwnersSelectedNodes cts (ownersOrdered s) [(''owner1'', Some 0)]
           = Inr ([Info (''Selected nodes config from auction list'' @ [CHR 0x0A]
                         @ ''owner14100030004201500k, ka'') []], ownersOrdered s)
       \<and> (\<exists>lines s'. displayOwnersSelectedNodes cts (ownersOrdered s) [(''owner1'', Some 0)]
             = Inr (displayTable cts
                      [''Owner'', ''Num staked nodes'', ''TopUp per node'', ''Total top up'',
                       ''Num auction nodes'', ''Num qualified auction nodes'',
                       ''Num active nodes'', ''Qualified top up per node'',
                       ''Selected auction list nodes'']
                      lines ''Selected nodes config from auction list'', s')
             \<and> last (Values (lines ! 0)) = ''k, ka''))"
proof -
  let ?cts = "\<lambda>(header :: string list) lines. (Inr (concat (map (\<lambda>l. concat (Values l)) lines)) :: string + string)"
  let ?owner = "\<lparr> numStakedNodes = 4, numActiveNodes = 0, numAuctionNodes = 4,
                  numQualifiedAuctionNodes = 2, totalTopUp = Some 0, topUpPerNode = Some 1,
                  qualifiedTopUpPerNode = Some 2,
                  auctionList = [\<lparr>publicKey = Some 0\<rparr>, \<lparr>publicKey = Some 1\<rparr>,
                                 \<lparr>publicKey = Some 2\<rparr>, \<lparr>publicKey = Some 3\<rparr>] \<rparr>"
  let ?s = "\<lparr> bigInts = [3000, 1000, 1500], byteArrays = [''kc'', ''ka'', ''kb'', ''k''],
              ownerStructs = [?owner], logLevel = LogDebug \<rparr>"
  let ?od = "[(''owner1'', Some (0::nat))]"
  have a: "loadOwner ?s (Some 0) = Inr ?owner" by (simp add: loadOwner_def)
  have b: "readable ?s ?owner" by (simp add: readable_def String_def loadBytes_def)
  have c: "keysOf ?s (auctionList ?owner) = [''kc'', ''ka'', ''kb'', ''k'']"
    by (simp add: keysOf_def keyOf_def loadBytes_def)
  have d: "distinct (keysOf ?s (auctionList ?owner))" unfolding c by simp
  have e: "numQualifiedAuctionNodes ?owner \<le> length (auctionList ?owner)" by simp
  have f: "take (numQualifiedAuctionNodes ?owner) (keysOf ?s (ascendingByPublicKey ?s (auctionList ?owner)))
           = [''k'', ''ka'']"
    by code_simp
  have g: "displayOwnersSelectedNodes ?cts (ownersOrdered ?s) ?od
           = Inr ([Info (''Selected nodes config from auction list'' @ [CHR 0x0A]
                         @ ''owner14100030004201500k, ka'') []], ownersOrdered ?s)"
    by code_simp
  have hyp: "\<forall>entry \<in> set ?od. \<exists>owner. loadOwner ?s (snd entry) = Inr owner
             \<and> readable ?s owner \<and> distinct (keysOf ?s (auctionList owner))
             \<and> numQualifiedAuctionNodes owner \<le> length (auctionList owner)"
    using a b d e by simp
  from selected_nodes_are_smallest_keys [OF hyp, of ?cts] obtain lines s' where
    run: "displayOwnersSelectedNodes ?cts (ownersOrdered ?s) ?od
             = Inr (displayTable ?cts
                      [''Owner'', ''Num staked nodes'', ''TopUp per node'', ''Total top up'',
                       ''Num auction nodes'', ''Num qualified auction nodes'',
                       ''Num active nodes'', ''Qualified top up per node'',
                       ''Selected auction list nodes'']
                      lines ''Selected nodes config from auction list'', s')"
    and col: "\<forall>i < length ?od. \<forall>owner. loadOwner ?s (snd (?od ! i)) = Inr owner \<longrightarrow>
                (let shown = take (numQualifiedAuctionNodes owner)
                               (keysOf ?s (ascendingByPublicKey ?s (auctionList owner)))
                 in last (Values (lines ! i)) = joinKeys (map shortForm shown)
                    \<and> length shown = numQualifiedAuctionNodes owner
                    \<and> sorted shown
                    \<and> set shown \<subseteq> set (keysOf ?s (auctionList owner))
                    \<and> (\<forall>x \<in> set shown. \<forall>y \<in> set (keysOf ?s (auctionList owner)) - set shown. x < y))"
    by blast
  have a': "loadOwner ?s (snd (?od ! 0)) = Inr ?owner" using a by simp
  from col a' have "last (Values (lines ! 0))
      = joinKeys (map shortForm (take (numQualifiedAuctionNodes ?owner)
                               (keysOf ?s (ascendingByPublicKey ?s (auctionList ?owner)))))"
    unfolding Let_def by (metis length_Cons zero_less_Suc)
  then have "last (Values (lines ! 0)) = ''k, ka''"
    unfolding f by (simp add: shortForm_def)
  with run have h: "\<exists>lines s'. displayOwnersSelectedNodes ?cts (ownersOrdered ?s) ?od
             = Inr (displayTable ?cts
                      [''Owner'', ''Num staked nodes'', ''TopUp per node'', ''Total top up'',
                       ''Num auction nodes'', ''Num qualified auction nodes'',
                       ''Num active nodes'', ''Qualified top up per node'',
                       ''Selected auction list nodes'']
                      lines ''Selected nodes config from auction list'', s')
             \<and> last (Values (lines ! 0)) = ''k, ka''"
    by blast
  show ?thesis
    unfolding Let_def by (intro conjI a b c d e f g h)
qed

text \<open>
  The order is the selector's work: the displayer renders the list as it stands and
  does not sort it.
\<close>

lemma unordered_list_is_rendered_as_it_stands:
  "displayOwnersSelectedNodes (\<lambda>header lines. Inr (concat (map (\<lambda>l. concat (Values l)) lines)))
     \<lparr> bigInts = [3000, 1000, 1500], byteArrays = [''kc'', ''ka'', ''kb'', ''k''],
       ownerStructs = [\<lparr> numStakedNodes = 4, numActiveNodes = 0, numAuctionNodes = 4,
                  numQualifiedAuctionNodes = 2, totalTopUp = Some 0, topUpPerNode = Some 1,
                  qualifiedTopUpPerNode = Some 2,
                  auctionList = [\<lparr>publicKey = Some 0\<rparr>, \<lparr>publicKey = Some 1\<rparr>,
                                 \<lparr>publicKey = Some 2\<rparr>, \<lparr>publicKey = Some 3\<rparr>] \<rparr>],
       logLevel = LogDebug \<rparr>
     [(''owner1'', Some 0)]
   = Inr ([Info (''Selected nodes config from auction list'' @ [CHR 0x0A]
                 @ ''owner14100030004201500kc, ka'') []],
          \<lparr> bigInts = [3000, 1000, 1500], byteArrays = [''kc'', ''ka'', ''kb'', ''k''],
            ownerStructs = [\<lparr> numStakedNodes = 4, numActiveNodes = 0, numAuctionNodes = 4,
                  numQualifiedAuctionNodes = 2, totalTopUp = Some 0, topUpPerNode = Some 1,
                  qualifiedTopUpPerNode = Some 2,
                  auctionList = [\<lparr>publicKey = Some 0\<rparr>, \<lparr>publicKey = Some 1\<rparr>,
                                 \<lparr>publicKey = Some 2\<rparr>, \<lparr>publicKey = Some 3\<rparr>] \<rparr>],
            logLevel = LogDebug \<rparr>)"
  by code_simp

end
